theory Spec2Isabelle
  imports Complex_Main
begin

section \<open>The metered gateway of fb-ChargeAI\<close>

text \<open>
  The development embeds two source files: \<^verbatim>\<open>src/lib/rate-limit.ts\<close> (the sliding-window
  rate limiter) and \<^verbatim>\<open>src/app/api/chat/route.ts\<close> (the chat proxy route). Every source
  function becomes a HOL function of the same name. What the code reads from its
  surroundings (the clock, the random generator, the availability of Redis, the reply of
  the upstream provider) is collected in the record \<open>env\<close>; what it mutates (the Redis
  keys, the in-process wallet cache, the identity and ledger store) is collected in the
  record \<open>world\<close>, which every function takes and returns.

  Where the model is coarser than JavaScript: finite numbers are rationals, so the
  rounding of floating-point arithmetic is not modelled; \<^verbatim>\<open>MODEL_DEPLOYMENTS[model]\<close> is
  looked up among the three properties the object declares; and Redis is reachable or
  not for the whole of a request.
\<close>

subsection \<open>Values\<close>

text \<open>
  JavaScript numbers: the finite ones as rationals, and the three that are not finite
  (\<^verbatim>\<open>JSON.parse\<close> reads \<^verbatim>\<open>1e999\<close> as \<^verbatim>\<open>Infinity\<close>). JSON values are as \<^verbatim>\<open>JSON.parse\<close> and
  axios deliver them; the members of an object are in the order of its properties.
\<close>

datatype number = Finite rat | Infinity | Minus_Infinity | NaN

datatype json =
    JNull
  | JBool bool
  | JNum number
  | JStr string
  | JArr "json list"
  | JObj "(string \<times> json) list"

text \<open>
  A JavaScript expression may also be \<^verbatim>\<open>undefined\<close>: such a value is a \<open>json option\<close>
  with \<open>None\<close> for \<^verbatim>\<open>undefined\<close>. \<open>truthy\<close> is the conversion to a boolean that
  \<^verbatim>\<open>if (x)\<close> and \<^verbatim>\<open>!x\<close> perform.
\<close>

fun truthy :: "json option \<Rightarrow> bool" where
  "truthy None = False"
| "truthy (Some JNull) = False"
| "truthy (Some (JBool b)) = b"
| "truthy (Some (JNum (Finite q))) = (q \<noteq> 0)"
| "truthy (Some (JNum Infinity)) = True"
| "truthy (Some (JNum Minus_Infinity)) = True"
| "truthy (Some (JNum NaN)) = False"
| "truthy (Some (JStr s)) = (s \<noteq> [])"
| "truthy (Some (JArr xs)) = True"
| "truthy (Some (JObj kvs)) = True"

text \<open>
  Thrown values. \<open>Error m\<close> is a plain \<^verbatim>\<open>Error\<close> (also a \<^verbatim>\<open>TypeError\<close> or
  \<^verbatim>\<open>SyntaxError\<close>) with message \<open>m\<close>; it has no \<^verbatim>\<open>response\<close> property. \<open>AxiosError m r\<close>
  is the error axios rejects with: \<open>r\<close> is the upstream response when one was received,
  with its HTTP status and the \<^verbatim>\<open>data.error.message\<close> of its body when present.
\<close>

datatype exn =
    Error string
  | AxiosError string "(nat \<times> string option) option"

fun message :: "exn \<Rightarrow> string" where
  "message (Error m) = m"
| "message (AxiosError m r) = m"

fun response_status :: "exn \<Rightarrow> nat option" where
  "response_status (Error m) = None"
| "response_status (AxiosError m None) = None"
| "response_status (AxiosError m (Some (st, msg))) = Some st"

fun response_data_error_message :: "exn \<Rightarrow> string option" where
  "response_data_error_message (Error m) = None"
| "response_data_error_message (AxiosError m None) = None"
| "response_data_error_message (AxiosError m (Some (st, msg))) = msg"

fun isAxiosError :: "exn \<Rightarrow> bool" where
  "isAxiosError (Error m) = False"
| "isAxiosError (AxiosError m r) = True"

text \<open>
  Reading a property: \<^verbatim>\<open>x.p\<close> throws a \<^verbatim>\<open>TypeError\<close> when \<open>x\<close> is \<^verbatim>\<open>undefined\<close> or
  \<^verbatim>\<open>null\<close>, gives the member of an object, and is \<^verbatim>\<open>undefined\<close> on every other value
  (for the property names the route reads: \<^verbatim>\<open>usage\<close> and \<^verbatim>\<open>total_tokens\<close>).
\<close>

fun get_prop :: "json option \<Rightarrow> string \<Rightarrow> exn + json option" where
  "get_prop None p = Inl (Error (''Cannot read properties of undefined (reading '' @ p @ '')''))"
| "get_prop (Some JNull) p = Inl (Error (''Cannot read properties of null (reading '' @ p @ '')''))"
| "get_prop (Some (JObj kvs)) p = Inr (map_of kvs p)"
| "get_prop (Some v) p = Inr None"

subsection \<open>The environment of one call\<close>

text \<open>
  \<open>date_now\<close> is \<^verbatim>\<open>Date.now()\<close> in milliseconds, \<open>math_random\<close> is \<^verbatim>\<open>Math.random()\<close>,
  \<open>redis_up\<close> tells whether Redis commands are answered (they throw otherwise), and
  the last five fields are the variables of \<^verbatim>\<open>process.env\<close> the route reads.
  \<open>axios_post\<close> is what the upstream call of this request yields: a rejection, a parsed
  JSON body (\<open>Data\<close>), or a byte stream given as the chunks of its \<^verbatim>\<open>data\<close> events, ended
  by its \<^verbatim>\<open>end\<close> event (\<open>Stream\<close>).
\<close>

datatype upstream_data = Data json | Stream "string list"

text \<open>
  The handlers of a stream are \<^verbatim>\<open>async\<close> functions that nobody awaits: each runs until
  its next \<^verbatim>\<open>await\<close> and goes on when the awaited promise has settled. \<open>event_loop\<close> is
  the order in which things happen after the handlers are registered: \<open>Next_event\<close>,
  the stream emits its next event (\<^verbatim>\<open>data\<close> with the next chunk, or \<^verbatim>\<open>end\<close> after the
  last); \<open>Write_settled\<close>, the oldest pending \<^verbatim>\<open>writer.write\<close> or \<^verbatim>\<open>writer.close\<close> has been
  carried out and the handler that awaits it goes on; \<open>Ledger_settled\<close>, the promise of
  \<^verbatim>\<open>updateWalletBalance\<close> has settled and the \<^verbatim>\<open>end\<close> handler goes on.
\<close>

datatype tick = Next_event | Write_settled | Ledger_settled

record env =
  date_now :: int
  math_random :: rat
  redis_up :: bool
  axios_post :: "exn + upstream_data"
  event_loop :: "tick list"
  AZURE_OPENAI_ENDPOINT :: "string option"
  AZURE_OPENAI_API_KEY :: "string option"
  AZURE_GPT4_DEPLOYMENT_NAME :: "string option"
  AZURE_OPENAI_DEPLOYMENT_NAME :: "string option"
  AZURE_GPT35_DEPLOYMENT_NAME :: "string option"

section \<open>src/lib/rate-limit.ts\<close>

text \<open>
  A Redis sorted set is a list of members with their scores, members pairwise distinct.
  The member \<^verbatim>\<open>`${now}-${Math.random()}`\<close> is kept as the pair of \<open>now\<close> and the random
  number, which determine the string. A key holds the set and its time of expiry in
  milliseconds; a key whose expiry has passed does not exist.
\<close>

type_synonym member = "int \<times> rat"
type_synonym zset = "(member \<times> int) list"
type_synonym zstore = "string \<Rightarrow> (zset \<times> int option) option"

definition zset_at :: "int \<Rightarrow> zstore \<Rightarrow> string \<Rightarrow> zset" where
  "zset_at t st key =
     (case st key of
        None \<Rightarrow> []
      | Some (zs, None) \<Rightarrow> zs
      | Some (zs, Some ex) \<Rightarrow> (if ex < t then [] else zs))"

definition zremrangebyscore :: "zset \<Rightarrow> int \<Rightarrow> int \<Rightarrow> zset" where
  "zremrangebyscore zs lo hi = filter (\<lambda>(m, s). \<not> (lo \<le> s \<and> s \<le> hi)) zs"

definition zcard :: "zset \<Rightarrow> int" where
  "zcard zs = int (length zs)"

fun zadd :: "zset \<Rightarrow> int \<Rightarrow> member \<Rightarrow> zset" where
  "zadd [] sc m = [(m, sc)]"
| "zadd ((m', s') # zs) sc m = (if m' = m then (m', sc) # zs else (m', s') # zadd zs sc m)"

text \<open>\<^verbatim>\<open>zrange(key, 0, 0, 'WITHSCORES')\<close>: the score of the entry of lowest score, if any.\<close>

fun zrange_first_score :: "zset \<Rightarrow> int option" where
  "zrange_first_score [] = None"
| "zrange_first_score ((m, s) # zs) = Some (fold min (map snd zs) s)"

record rate_limit_result =
  success :: bool
  remaining :: int
  reset :: int
  limit :: int
  error :: "string option"

definition RATE_LIMIT_requests :: int where
  "RATE_LIMIT_requests = 60"

definition RATE_LIMIT_window :: int where
  "RATE_LIMIT_window = 60"

definition rate_limit_key :: "string \<Rightarrow> string" where
  "rate_limit_key userId = ''rate_limit:'' @ userId"

text \<open>
  \<open>rateLimit\<close>: the pipeline (purge, count, add, expire), then the read of the oldest
  entry, then the decision on the count taken before the add. When Redis cannot be
  reached the pipeline throws and the \<^verbatim>\<open>catch\<close> admits the request.
\<close>

definition rateLimit :: "env \<Rightarrow> zstore \<Rightarrow> string \<Rightarrow> rate_limit_result \<times> zstore" where
  "rateLimit e st userId =
     (if redis_up e then
        (let now = date_now e div 1000;
             key = rate_limit_key userId;
             purged = zremrangebyscore (zset_at (date_now e) st key) 0 (now - RATE_LIMIT_window);
             requestCount = zcard purged;
             added = zadd purged now (now, math_random e);
             st' = st(key \<mapsto> (added, Some (date_now e + RATE_LIMIT_window * 1000)));
             resetTime = (case zrange_first_score (zset_at (date_now e) st' key) of
                            Some oldest \<Rightarrow> oldest + RATE_LIMIT_window
                          | None \<Rightarrow> now + RATE_LIMIT_window)
         in if requestCount \<ge> RATE_LIMIT_requests
            then (\<lparr>success = False, remaining = 0, reset = resetTime,
                   limit = RATE_LIMIT_requests, error = None\<rparr>, st')
            else (\<lparr>success = True, remaining = RATE_LIMIT_requests - requestCount,
                   reset = resetTime, limit = RATE_LIMIT_requests, error = None\<rparr>, st'))
      else
        (\<lparr>success = True, remaining = 1, reset = date_now e div 1000 + 3600,
          limit = RATE_LIMIT_requests,
          error = Some ''Rate limiting temporarily unavailable''\<rparr>, st))"

text \<open>A sequence of calls for one account, each with its own clock reading and random number.\<close>

fun rateLimit_calls :: "zstore \<Rightarrow> string \<Rightarrow> env list \<Rightarrow> rate_limit_result list \<times> zstore" where
  "rateLimit_calls st userId [] = ([], st)"
| "rateLimit_calls st userId (e # es) =
     (case rateLimit e st userId of
        (r, st') \<Rightarrow> (case rateLimit_calls st' userId es of (rs, st'') \<Rightarrow> (r # rs, st'')))"

text \<open>
  The entries of the window that survive the purge, in the words of the specification:
  those whose timestamp is greater than \<open>now - 60\<close>. The \<open>count\<close> of the specification
  is the length of this list.
\<close>

definition surviving :: "env \<Rightarrow> zstore \<Rightarrow> string \<Rightarrow> zset" where
  "surviving e st userId =
     filter (\<lambda>(m, s). date_now e div 1000 - 60 < s)
       (zset_at (date_now e) st (rate_limit_key userId))"

text \<open>
  The timestamps in the window of an account are readings of the clock in seconds: none
  is negative.
\<close>

definition timestamps_not_negative :: "zstore \<Rightarrow> string \<Rightarrow> bool" where
  "timestamps_not_negative st userId =
     list_all (\<lambda>(m, s). 0 \<le> s)
       (case st (rate_limit_key userId) of None \<Rightarrow> [] | Some (zs, ex) \<Rightarrow> zs)"

definition member_of :: "env \<Rightarrow> member" where
  "member_of e = (date_now e div 1000, math_random e)"

section \<open>src/app/api/chat/route.ts\<close>

subsection \<open>Collaborators that are not in the file\<close>

text \<open>
  \<^verbatim>\<open>calculateCost\<close> (\<^verbatim>\<open>@/lib/pricing\<close>), the MD5 digest in hexadecimal
  (\<^verbatim>\<open>crypto.createHash('md5').update(data).digest('hex')\<close>), the text of a finite number
  (\<^verbatim>\<open>Number.prototype.toString\<close>) and \<^verbatim>\<open>JSON.parse\<close> are parameters of the model.
  \<open>JSON_parse\<close> gives \<open>None\<close> where \<^verbatim>\<open>JSON.parse\<close> throws. The second argument of
  \<open>calculateCost\<close> is the value of \<^verbatim>\<open>usage.total_tokens\<close>, which may be \<^verbatim>\<open>undefined\<close>.
\<close>

record lib =
  calculateCost :: "string \<Rightarrow> json option \<Rightarrow> rat"
  md5_hex :: "string \<Rightarrow> string"
  Number_toString :: "rat \<Rightarrow> string"
  JSON_parse :: "string \<Rightarrow> json option"

text \<open>
  \<^verbatim>\<open>JSON.stringify\<close> on JSON values, after ECMAScript (SerializeJSONProperty,
  QuoteJSONString): a number that is not finite becomes \<^verbatim>\<open>null\<close>; in a string the double
  quote, the backslash and the control characters are escaped; the elements of an array
  and the members of an object are separated by commas, without white space.
\<close>

definition dquote :: char where
  "dquote = CHR 0x22"

definition backslash :: char where
  "backslash = CHR 0x5C"

definition hex_digit :: "nat \<Rightarrow> char" where
  "hex_digit n = ''0123456789abcdef'' ! n"

definition escape_char :: "char \<Rightarrow> string" where
  "escape_char c =
     (if c = CHR 0x08 then [backslash, CHR ''b'']
      else if c = CHR 0x09 then [backslash, CHR ''t'']
      else if c = CHR 0x0A then [backslash, CHR ''n'']
      else if c = CHR 0x0C then [backslash, CHR ''f'']
      else if c = CHR 0x0D then [backslash, CHR ''r'']
      else if c = dquote then [backslash, dquote]
      else if c = backslash then [backslash, backslash]
      else if (of_char c :: nat) < 32
      then [backslash, CHR ''u'', CHR ''0'', CHR ''0'',
            hex_digit (of_char c div 16), hex_digit (of_char c mod 16)]
      else [c])"

definition quote_string :: "string \<Rightarrow> string" where
  "quote_string s = dquote # concat (map escape_char s) @ [dquote]"

fun join_comma :: "string list \<Rightarrow> string" where
  "join_comma [] = []"
| "join_comma [x] = x"
| "join_comma (x # y # ys) = x @ '','' @ join_comma (y # ys)"

fun stringify :: "(rat \<Rightarrow> string) \<Rightarrow> json \<Rightarrow> string" where
  "stringify f JNull = ''null''"
| "stringify f (JBool b) = (if b then ''true'' else ''false'')"
| "stringify f (JNum (Finite q)) = f q"
| "stringify f (JNum Infinity) = ''null''"
| "stringify f (JNum Minus_Infinity) = ''null''"
| "stringify f (JNum NaN) = ''null''"
| "stringify f (JStr s) = quote_string s"
| "stringify f (JArr xs) = ''['' @ join_comma (map (stringify f) xs) @ '']''"
| "stringify f (JObj kvs) =
     ''{'' @ join_comma (map (\<lambda>kv. quote_string (fst kv) @ '':'' @ stringify f (snd kv)) kvs) @ ''}''"

definition JSON_stringify :: "lib \<Rightarrow> json \<Rightarrow> string" where
  "JSON_stringify L j = stringify (Number_toString L) j"

record wallet =
  userId :: "string option"
  balance :: rat

record ledger_transaction =
  accountId :: "string option"
  delta :: rat
  description :: string
  timestamp :: int

text \<open>
  The trace of the calls a handler makes to its collaborators and of what it writes to
  the response stream, in the order in which they happen.
\<close>

datatype call =
    Call_getWalletByApiKey string
  | Call_rateLimit string
  | Call_axios_post string bool
  | Call_updateWalletBalance "string option" rat string
  | Call_redis_get string
  | Call_redis_setex string int string
  | Writer_write string
  | Writer_close

record world =
  wallets :: "string \<Rightarrow> wallet option"
  ledger :: "ledger_transaction list"
  walletCache :: "string \<Rightarrow> (wallet \<times> int) option"
  redis :: "string \<Rightarrow> (string \<times> int) option"
  rate_limits :: zstore
  calls :: "call list"

definition log_call :: "call \<Rightarrow> world \<Rightarrow> world" where
  "log_call c w = w\<lparr>calls := calls w @ [c]\<rparr>"

text \<open>
  Modelled from the spec: \<^verbatim>\<open>getWalletByApiKey\<close> of \<^verbatim>\<open>@/lib/mongodb\<close> is not among the
  sources. The identity store, given an API key, returns the account and its current
  balance, or nothing.
\<close>

definition getWalletByApiKey :: "world \<Rightarrow> string \<Rightarrow> wallet option \<times> world" where
  "getWalletByApiKey w apiKey = (wallets w apiKey, log_call (Call_getWalletByApiKey apiKey) w)"

text \<open>
  Modelled from the spec: \<^verbatim>\<open>updateWalletBalance\<close> of \<^verbatim>\<open>@/lib/mongodb\<close> is not among the
  sources. The ledger store persists a balance delta and a description for an account:
  it appends a ledger transaction and adds the delta to the balance of the account.
\<close>

definition updateWalletBalance :: "env \<Rightarrow> world \<Rightarrow> string option \<Rightarrow> rat \<Rightarrow> string \<Rightarrow> world" where
  "updateWalletBalance e w uid amount descr =
     log_call (Call_updateWalletBalance uid amount descr)
       (w\<lparr>wallets := (\<lambda>k. case wallets w k of
                            None \<Rightarrow> None
                          | Some wl \<Rightarrow> if userId wl = uid
                                       then Some (wl\<lparr>balance := balance wl + amount\<rparr>)
                                       else Some wl),
          ledger := ledger w @ [\<lparr>accountId = uid, delta = amount, description = descr,
                                 timestamp = date_now e\<rparr>]\<rparr>)"

text \<open>Redis string keys: \<^verbatim>\<open>get\<close> and \<^verbatim>\<open>setex\<close> (a value with its time of expiry).\<close>

definition redis_get :: "env \<Rightarrow> world \<Rightarrow> string \<Rightarrow> string option \<times> world" where
  "redis_get e w key =
     ((case redis w key of
         None \<Rightarrow> None
       | Some (v, ex) \<Rightarrow> if ex < date_now e then None else Some v),
      log_call (Call_redis_get key) w)"

definition redis_setex :: "env \<Rightarrow> world \<Rightarrow> string \<Rightarrow> int \<Rightarrow> string \<Rightarrow> world" where
  "redis_setex e w key ttl v =
     log_call (Call_redis_setex key ttl v)
       (w\<lparr>redis := (redis w)(key \<mapsto> (v, date_now e + ttl * 1000))\<rparr>)"

text \<open>The truth value of a string that may be \<^verbatim>\<open>undefined\<close> or \<^verbatim>\<open>null\<close>.\<close>

fun truthy_string :: "string option \<Rightarrow> bool" where
  "truthy_string None = False"
| "truthy_string (Some s) = (s \<noteq> [])"

subsection \<open>Constants and helpers\<close>

definition MODEL_DEPLOYMENTS :: "env \<Rightarrow> string \<Rightarrow> string option" where
  "MODEL_DEPLOYMENTS e model =
     (if model = ''gpt-4'' then AZURE_GPT4_DEPLOYMENT_NAME e
      else if model = ''gpt-4o'' then AZURE_OPENAI_DEPLOYMENT_NAME e
      else if model = ''gpt-3.5-turbo'' then AZURE_GPT35_DEPLOYMENT_NAME e
      else None)"

definition CACHE_TTL :: int where
  "CACHE_TTL = 3600"

definition WALLET_CACHE_TTL :: int where
  "WALLET_CACHE_TTL = 300"

text \<open>
  The object \<^verbatim>\<open>{ messages, model, temperature, max_tokens }\<close> as \<^verbatim>\<open>JSON.stringify\<close> sees
  it: a property whose value is \<^verbatim>\<open>undefined\<close> is left out.
\<close>

definition cache_object :: "json list \<Rightarrow> string \<Rightarrow> number option \<Rightarrow> number option \<Rightarrow> json" where
  "cache_object messages model temperature max_tokens =
     JObj ([(''messages'', JArr messages), (''model'', JStr model)]
           @ (case temperature of None \<Rightarrow> [] | Some t \<Rightarrow> [(''temperature'', JNum t)])
           @ (case max_tokens of None \<Rightarrow> [] | Some n \<Rightarrow> [(''max_tokens'', JNum n)]))"

definition generateCacheKey ::
  "lib \<Rightarrow> json list \<Rightarrow> string \<Rightarrow> number option \<Rightarrow> number option \<Rightarrow> string" where
  "generateCacheKey L messages model temperature max_tokens =
     (let data = JSON_stringify L (cache_object messages model temperature max_tokens)
      in md5_hex L data)"

definition getCachedWallet :: "env \<Rightarrow> world \<Rightarrow> string \<Rightarrow> wallet option \<times> world" where
  "getCachedWallet e w apiKey =
     (let fetch = (case getWalletByApiKey w apiKey of
                     (None, w') \<Rightarrow> (None, w')
                   | (Some wl, w') \<Rightarrow>
                       (Some wl, w'\<lparr>walletCache := (walletCache w')(apiKey \<mapsto> (wl, date_now e))\<rparr>))
      in case walletCache w apiKey of
           None \<Rightarrow> fetch
         | Some (cached, stamp) \<Rightarrow>
             if date_now e - stamp < WALLET_CACHE_TTL * 1000 then (Some cached, w) else fetch)"

text \<open>\<^verbatim>\<open>chunk.split('\n')\<close>, \<^verbatim>\<open>line.startsWith(p)\<close> and the loop of \<open>parseSSEResponse\<close>.\<close>

definition newline :: char where
  "newline = CHR 0x0A"

fun split_newline :: "string \<Rightarrow> string list" where
  "split_newline [] = [[]]"
| "split_newline (c # cs) =
     (if c = newline then [] # split_newline cs
      else (case split_newline cs of
              [] \<Rightarrow> [[c]]
            | line # rest \<Rightarrow> (c # line) # rest))"

definition startsWith :: "string \<Rightarrow> string \<Rightarrow> bool" where
  "startsWith s p = (take (length p) s = p)"

fun parse_lines :: "lib \<Rightarrow> string list \<Rightarrow> json list \<Rightarrow> json list" where
  "parse_lines L [] parsedLines = parsedLines"
| "parse_lines L (line # rest) parsedLines =
     (if startsWith line ''data: '' then
        (let jsonStr = drop 6 line
         in if jsonStr = ''[DONE]'' then parse_lines L rest parsedLines
            else (case JSON_parse L jsonStr of
                    Some parsed \<Rightarrow> parse_lines L rest (parsedLines @ [parsed])
                  | None \<Rightarrow> parse_lines L rest parsedLines))
      else parse_lines L rest parsedLines)"

definition parseSSEResponse :: "lib \<Rightarrow> string \<Rightarrow> json list" where
  "parseSSEResponse L chunk = parse_lines L (split_newline chunk) []"

definition validateRequest ::
  "env \<Rightarrow> world \<Rightarrow> string \<Rightarrow> string \<Rightarrow> (exn + wallet \<times> string) \<times> world" where
  "validateRequest e w apiKey model =
     (case getCachedWallet e w apiKey of
        (None, w1) \<Rightarrow> (Inl (Error ''Invalid API key''), w1)
      | (Some wl, w1) \<Rightarrow>
          (let (rateLimitResult_success, w2) =
                 (case userId wl of
                    None \<Rightarrow> (True, w1)
                  | Some uid \<Rightarrow>
                      if uid = [] then (True, w1)
                      else (case rateLimit e (rate_limits w1) uid of
                              (r, st') \<Rightarrow>
                                (success r, log_call (Call_rateLimit uid) (w1\<lparr>rate_limits := st'\<rparr>))));
               deploymentName = MODEL_DEPLOYMENTS e model
           in if \<not> rateLimitResult_success then (Inl (Error ''Rate limit exceeded''), w2)
              else (case deploymentName of
                      None \<Rightarrow> (Inl (Error ''Invalid model specified''), w2)
                    | Some d \<Rightarrow>
                        if d = [] then (Inl (Error ''Invalid model specified''), w2)
                        else (Inr (wl, d), w2))))"

subsection \<open>Requests and responses\<close>

text \<open>
  The body of a request after \<^verbatim>\<open>await request.json()\<close>, with the types the route
  declares for its fields; an absent field is \<open>None\<close>. \<open>request_json\<close> is \<open>Inl\<close> with
  the message of the \<^verbatim>\<open>SyntaxError\<close> when the body is not JSON and \<^verbatim>\<open>request.json()\<close>
  rejects.
\<close>

record body =
  body_messages :: "json list"
  body_model :: "string option"
  body_temperature :: "number option"
  body_max_tokens :: "number option"
  body_stream :: "bool option"

record request =
  header_api_key :: "string option"
  request_json :: "string + body"

text \<open>
  A response is its HTTP status and its body: \<^verbatim>\<open>{error}\<close>, the completion spread with
  \<^verbatim>\<open>cost\<close>, \<^verbatim>\<open>remainingBalance\<close> and, on a cache hit, \<^verbatim>\<open>cached\<close>, or the readable side
  of the event stream (what is written to it is in the trace).
\<close>

datatype response_body =
    Error_body string
  | Completion_body json rat rat "bool option"
  | Event_stream

record response =
  status :: nat
  response_body :: response_body

definition NextResponse_json_error :: "string \<Rightarrow> nat \<Rightarrow> response" where
  "NextResponse_json_error msg st = \<lparr>status = st, response_body = Error_body msg\<rparr>"

text \<open>\<^verbatim>\<open>x.usage.total_tokens\<close>\<close>

definition usage_total_tokens :: "json \<Rightarrow> exn + json option" where
  "usage_total_tokens x =
     (case get_prop (Some x) ''usage'' of
        Inl ex \<Rightarrow> Inl ex
      | Inr u \<Rightarrow> get_prop u ''total_tokens'')"

text \<open>\<^verbatim>\<open>`Chat completion (${model})`\<close>\<close>

definition chat_description :: "string \<Rightarrow> string" where
  "chat_description model = ''Chat completion ('' @ model @ '')''"

subsection \<open>The first handler (lines 47 to 141)\<close>

text \<open>
  The file declares \<^verbatim>\<open>POST\<close> twice. \<open>POST_1\<close> is the first declaration, which answers
  every failure where it is found; \<open>POST_2\<close> below is the second, with the response
  cache, the wallet cache and streaming.
\<close>

definition catch_1 :: "exn \<Rightarrow> response" where
  "catch_1 ex =
     (if isAxiosError ex then
        NextResponse_json_error
          (case response_data_error_message ex of
             None \<Rightarrow> ''Failed to process chat request''
           | Some m \<Rightarrow> if m = [] then ''Failed to process chat request'' else m)
          (case response_status ex of
             None \<Rightarrow> 500
           | Some st \<Rightarrow> if st = 0 then 500 else st)
      else NextResponse_json_error ''An internal error occurred'' 500)"

definition validateConfig :: "env \<Rightarrow> exn + unit" where
  "validateConfig e =
     (if truthy_string (AZURE_OPENAI_ENDPOINT e) \<and> truthy_string (AZURE_OPENAI_API_KEY e)
      then Inr ()
      else Inl (Error ''Missing required Azure configuration''))"

definition getDeploymentName :: "env \<Rightarrow> string \<Rightarrow> exn + string" where
  "getDeploymentName e model =
     (case MODEL_DEPLOYMENTS e model of
        None \<Rightarrow> Inl (Error (''Unsupported model: '' @ model))
      | Some d \<Rightarrow> if d = [] then Inl (Error (''Unsupported model: '' @ model)) else Inr d)"

text \<open>The part of the first handler after the rate-limit check.\<close>

definition complete_1 :: "lib \<Rightarrow> env \<Rightarrow> world \<Rightarrow> wallet \<Rightarrow> string \<Rightarrow> response \<times> world" where
  "complete_1 L e w wl model =
     (case getDeploymentName e model of
        Inl ex \<Rightarrow> (NextResponse_json_error ''Invalid model specified'' 400, w)
      | Inr deploymentName \<Rightarrow>
          (let w1 = log_call (Call_axios_post deploymentName False) w
           in case axios_post e of
                Inl ex \<Rightarrow> (catch_1 ex, w1)
              | Inr d \<Rightarrow>
                  (let data = (case d of Data j \<Rightarrow> j | Stream cs \<Rightarrow> JStr (concat cs))
                   in case usage_total_tokens data of
                        Inl ex \<Rightarrow> (catch_1 ex, w1)
                      | Inr tokensUsed \<Rightarrow>
                          (let cost = calculateCost L model tokensUsed
                           in if balance wl < cost
                              then (NextResponse_json_error ''Insufficient funds'' 402, w1)
                              else (\<lparr>status = 200,
                                     response_body =
                                       Completion_body data cost (balance wl - cost) None\<rparr>,
                                    updateWalletBalance e w1 (userId wl) (- cost)
                                      (chat_description model))))))"

definition POST_1 :: "lib \<Rightarrow> env \<Rightarrow> world \<Rightarrow> request \<Rightarrow> response \<times> world" where
  "POST_1 L e w request =
     (case validateConfig e of
        Inl ex \<Rightarrow> (catch_1 ex, w)
      | Inr u \<Rightarrow>
          (case request_json request of
             Inl m \<Rightarrow> (catch_1 (Error m), w)
           | Inr b \<Rightarrow>
               (let model = (case body_model b of None \<Rightarrow> ''gpt-4o'' | Some m \<Rightarrow> m)
                in case header_api_key request of
                     None \<Rightarrow> (NextResponse_json_error ''API key is required'' 401, w)
                   | Some apiKey \<Rightarrow>
                       if apiKey = [] then (NextResponse_json_error ''API key is required'' 401, w)
                       else (case getWalletByApiKey w apiKey of
                               (None, w1) \<Rightarrow> (NextResponse_json_error ''Invalid API key'' 401, w1)
                             | (Some wl, w1) \<Rightarrow>
                                 (case userId wl of
                                    None \<Rightarrow> complete_1 L e w1 wl model
                                  | Some uid \<Rightarrow>
                                      if uid = [] then complete_1 L e w1 wl model
                                      else (case rateLimit e (rate_limits w1) uid of
                                              (r, st') \<Rightarrow>
                                                (let w2 = log_call (Call_rateLimit uid)
                                                            (w1\<lparr>rate_limits := st'\<rparr>)
                                                 in if \<not> success r
                                                    then (NextResponse_json_error
                                                            ''Rate limit exceeded. Please try again later.''
                                                            429, w2)
                                                    else complete_1 L e w2 wl model)))))))"

subsection \<open>The second handler (lines 272 to 414)\<close>

definition catch_2 :: "exn \<Rightarrow> response" where
  "catch_2 ex =
     NextResponse_json_error
       (if message ex = [] then ''An internal error occurred'' else message ex)
       (case response_status ex of
          None \<Rightarrow> 500
        | Some st \<Rightarrow> if st = 0 then 500 else st)"

text \<open>The cache hit, lines 293 to 309.\<close>

definition cache_hit :: "lib \<Rightarrow> env \<Rightarrow> world \<Rightarrow> string \<Rightarrow> string \<Rightarrow> string \<Rightarrow> response \<times> world" where
  "cache_hit L e w apiKey model cachedResponse =
     (case JSON_parse L cachedResponse of
        None \<Rightarrow> (catch_2 (Error ''Unexpected token in JSON''), w)
      | Some parsed \<Rightarrow>
          (case validateRequest e w apiKey model of
             (Inl ex, w1) \<Rightarrow> (catch_2 ex, w1)
           | (Inr (wl, deploymentName), w1) \<Rightarrow>
               (case usage_total_tokens parsed of
                  Inl ex \<Rightarrow> (catch_2 ex, w1)
                | Inr total_tokens \<Rightarrow>
                    (let cost = calculateCost L model total_tokens
                     in if balance wl < cost
                        then (NextResponse_json_error ''Insufficient funds'' 402, w1)
                        else (\<lparr>status = 200,
                               response_body =
                                 Completion_body parsed cost (balance wl - cost) (Some True)\<rparr>,
                              w1)))))"

text \<open>
  The stream, lines 339 to 358. The state of the handlers: the chunks the stream has
  not emitted yet, whether \<^verbatim>\<open>end\<close> was emitted, \<^verbatim>\<open>lastChunk\<close>, the handlers suspended
  at an \<^verbatim>\<open>await\<close> of the writer in the order of their writes (a \<^verbatim>\<open>data\<close> handler with the
  items its loop has still to do, the \<^verbatim>\<open>end\<close> handler after its write of the sentinel or
  after its \<^verbatim>\<open>close\<close>), whether the \<^verbatim>\<open>end\<close> handler awaits \<^verbatim>\<open>updateWalletBalance\<close>,
  whether \<^verbatim>\<open>writer.close()\<close> was called, and the world with the trace.
\<close>

datatype suspended =
    Data_handler "json list"
  | End_handler_after_done
  | End_handler_after_close

record stream_state =
  upstream :: "string list"
  end_emitted :: bool
  lastChunk :: "json option"
  awaiting_write :: "suspended list"
  awaiting_ledger :: bool
  close_requested :: bool
  effects :: world

definition sse_frame :: "lib \<Rightarrow> json \<Rightarrow> string" where
  "sse_frame L item = ''data: '' @ JSON_stringify L item @ [newline, newline]"

definition done_frame :: string where
  "done_frame = ''data: [DONE]'' @ [newline, newline]"

text \<open>
  \<^verbatim>\<open>await writer.write(text)\<close>: the text is queued behind the earlier writes and the
  handler is suspended until it has been written. Once \<^verbatim>\<open>close\<close> has been called the
  write is rejected, nothing is written and the handler ends with the rejection.
\<close>

definition writer_write :: "string \<Rightarrow> suspended \<Rightarrow> stream_state \<Rightarrow> stream_state" where
  "writer_write text continuation s =
     (if close_requested s then s
      else s\<lparr>awaiting_write := awaiting_write s @ [continuation],
             effects := log_call (Writer_write text) (effects s)\<rparr>)"

text \<open>
  The loop of the \<^verbatim>\<open>data\<close> handler, from its start or from the \<^verbatim>\<open>await\<close> it was
  suspended at, up to its next \<^verbatim>\<open>await\<close>.
\<close>

definition data_loop :: "lib \<Rightarrow> json list \<Rightarrow> stream_state \<Rightarrow> stream_state" where
  "data_loop L items s =
     (case items of
        [] \<Rightarrow> s
      | item # rest \<Rightarrow>
          writer_write (sse_frame L item) (Data_handler rest) (s\<lparr>lastChunk := Some item\<rparr>))"

definition on_data :: "lib \<Rightarrow> string \<Rightarrow> stream_state \<Rightarrow> stream_state" where
  "on_data L chunk s = data_loop L (parseSSEResponse L chunk) s"

text \<open>\<^verbatim>\<open>lastChunk?.usage\<close>\<close>

fun optional_usage :: "json option \<Rightarrow> json option" where
  "optional_usage None = None"
| "optional_usage (Some JNull) = None"
| "optional_usage (Some (JObj kvs)) = map_of kvs ''usage''"
| "optional_usage (Some v) = None"

text \<open>
  The \<^verbatim>\<open>end\<close> handler up to its first \<^verbatim>\<open>await\<close>: of \<^verbatim>\<open>updateWalletBalance\<close> when
  \<^verbatim>\<open>lastChunk\<close> has a usage record, of the write of the sentinel otherwise.
\<close>

definition on_end :: "lib \<Rightarrow> env \<Rightarrow> string \<Rightarrow> wallet \<Rightarrow> stream_state \<Rightarrow> stream_state" where
  "on_end L e model wl s =
     (if truthy (optional_usage (lastChunk s)) then
        (case get_prop (optional_usage (lastChunk s)) ''total_tokens'' of
           Inl ex \<Rightarrow> s
         | Inr total_tokens \<Rightarrow>
             (let cost = calculateCost L model total_tokens
              in s\<lparr>awaiting_ledger := True,
                    effects := updateWalletBalance e (effects s) (userId wl) (- cost)
                                 (chat_description model)\<rparr>))
      else writer_write done_frame End_handler_after_done s)"

text \<open>The handler that awaits the oldest pending write goes on.\<close>

definition continue_handler :: "lib \<Rightarrow> stream_state \<Rightarrow> stream_state" where
  "continue_handler L s =
     (case awaiting_write s of
        [] \<Rightarrow> s
      | h # hs \<Rightarrow>
          (case h of
             Data_handler rest \<Rightarrow> data_loop L rest (s\<lparr>awaiting_write := hs\<rparr>)
           | End_handler_after_done \<Rightarrow>
               s\<lparr>awaiting_write := hs @ [End_handler_after_close],
                  close_requested := True,
                  effects := log_call Writer_close (effects s)\<rparr>
           | End_handler_after_close \<Rightarrow> s\<lparr>awaiting_write := hs\<rparr>))"

definition tick_step ::
  "lib \<Rightarrow> env \<Rightarrow> string \<Rightarrow> wallet \<Rightarrow> stream_state \<Rightarrow> tick \<Rightarrow> stream_state" where
  "tick_step L e model wl s t =
     (case t of
        Next_event \<Rightarrow>
          (case upstream s of
             chunk # rest \<Rightarrow> on_data L chunk (s\<lparr>upstream := rest\<rparr>)
           | [] \<Rightarrow> if end_emitted s then s else on_end L e model wl (s\<lparr>end_emitted := True\<rparr>))
      | Write_settled \<Rightarrow> continue_handler L s
      | Ledger_settled \<Rightarrow>
          if awaiting_ledger s
          then writer_write done_frame End_handler_after_done (s\<lparr>awaiting_ledger := False\<rparr>)
          else s)"

definition stream_start :: "string list \<Rightarrow> world \<Rightarrow> stream_state" where
  "stream_start chunks w =
     \<lparr>upstream = chunks, end_emitted = False, lastChunk = None, awaiting_write = [],
      awaiting_ledger = False, close_requested = False, effects = w\<rparr>"

definition stream_run ::
  "lib \<Rightarrow> env \<Rightarrow> string \<Rightarrow> wallet \<Rightarrow> string list \<Rightarrow> world \<Rightarrow> stream_state" where
  "stream_run L e model wl chunks w =
     foldl (tick_step L e model wl) (stream_start chunks w) (event_loop e)"

definition stream_events ::
  "lib \<Rightarrow> env \<Rightarrow> string \<Rightarrow> wallet \<Rightarrow> string list \<Rightarrow> world \<Rightarrow> world" where
  "stream_events L e model wl chunks w = effects (stream_run L e model wl chunks w)"

text \<open>Streaming response handling, lines 317 to 367.\<close>

definition stream_2 ::
  "lib \<Rightarrow> env \<Rightarrow> world \<Rightarrow> wallet \<Rightarrow> string \<Rightarrow> string \<Rightarrow> response \<times> world" where
  "stream_2 L e w wl deploymentName model =
     (let w1 = log_call (Call_axios_post deploymentName True) w
      in case axios_post e of
           Inl ex \<Rightarrow> (catch_2 ex, w1)
         | Inr (Data j) \<Rightarrow> (catch_2 (Error ''response.data.on is not a function''), w1)
         | Inr (Stream chunks) \<Rightarrow>
             (\<lparr>status = 200, response_body = Event_stream\<rparr>,
              stream_events L e model wl chunks w1))"

text \<open>Non-streaming response handling, lines 369 to 402.\<close>

definition wallet_json :: "wallet \<Rightarrow> json" where
  "wallet_json wl =
     JObj ((case userId wl of None \<Rightarrow> [] | Some uid \<Rightarrow> [(''userId'', JStr uid)])
           @ [(''balance'', JNum (Finite (balance wl)))])"

definition complete_2 ::
  "lib \<Rightarrow> env \<Rightarrow> world \<Rightarrow> string \<Rightarrow> wallet \<Rightarrow> string \<Rightarrow> json list \<Rightarrow> string \<Rightarrow>
   number option \<Rightarrow> number option \<Rightarrow> response \<times> world" where
  "complete_2 L e w apiKey wl deploymentName messages model temperature max_tokens =
     (let w1 = log_call (Call_axios_post deploymentName False) w
      in case axios_post e of
           Inl ex \<Rightarrow> (catch_2 ex, w1)
         | Inr d \<Rightarrow>
             (let completionResponse = (case d of Data j \<Rightarrow> j | Stream cs \<Rightarrow> JStr (concat cs))
              in case usage_total_tokens completionResponse of
                   Inl ex \<Rightarrow> (catch_2 ex, w1)
                 | Inr total_tokens \<Rightarrow>
                     (let cost = calculateCost L model total_tokens;
                          w2 = updateWalletBalance e w1 (userId wl) (- cost)
                                 (chat_description model);
                          w3 = redis_setex e w2 (''wallet:'' @ apiKey) WALLET_CACHE_TTL
                                 (JSON_stringify L
                                    (wallet_json (wl\<lparr>balance := balance wl - cost\<rparr>)));
                          cacheKey = generateCacheKey L messages model temperature max_tokens;
                          w4 = redis_setex e w3 cacheKey CACHE_TTL
                                 (JSON_stringify L completionResponse)
                      in (\<lparr>status = 200,
                           response_body =
                             Completion_body completionResponse cost (balance wl - cost) None\<rparr>,
                          w4))))"

text \<open>From \<^verbatim>\<open>// Validate request\<close> on, lines 313 to 403.\<close>

definition validated_2 ::
  "lib \<Rightarrow> env \<Rightarrow> world \<Rightarrow> string \<Rightarrow> json list \<Rightarrow> string \<Rightarrow> number option \<Rightarrow>
   number option \<Rightarrow> bool \<Rightarrow> response \<times> world" where
  "validated_2 L e w apiKey messages model temperature max_tokens stream =
     (case validateRequest e w apiKey model of
        (Inl ex, w1) \<Rightarrow> (catch_2 ex, w1)
      | (Inr (wl, deploymentName), w1) \<Rightarrow>
          if stream then stream_2 L e w1 wl deploymentName model
          else complete_2 L e w1 apiKey wl deploymentName messages model temperature max_tokens)"

definition POST_2 :: "lib \<Rightarrow> env \<Rightarrow> world \<Rightarrow> request \<Rightarrow> response \<times> world" where
  "POST_2 L e w request =
     (case request_json request of
        Inl m \<Rightarrow> (catch_2 (Error m), w)
      | Inr b \<Rightarrow>
          (let messages = body_messages b;
               model = (case body_model b of None \<Rightarrow> ''gpt-4o'' | Some m \<Rightarrow> m);
               temperature = body_temperature b;
               max_tokens = body_max_tokens b;
               stream = (case body_stream b of None \<Rightarrow> False | Some f \<Rightarrow> f)
           in case header_api_key request of
                None \<Rightarrow> (NextResponse_json_error ''API key is required'' 401, w)
              | Some apiKey \<Rightarrow>
                  if apiKey = [] then (NextResponse_json_error ''API key is required'' 401, w)
                  else if stream
                  then validated_2 L e w apiKey messages model temperature max_tokens stream
                  else if \<not> redis_up e then (catch_2 (Error ''Connection is closed.''), w)
                  else (case redis_get e w
                               (generateCacheKey L messages model temperature max_tokens) of
                          (None, w1) \<Rightarrow>
                            validated_2 L e w1 apiKey messages model temperature max_tokens stream
                        | (Some cachedResponse, w1) \<Rightarrow>
                            if cachedResponse = []
                            then validated_2 L e w1 apiKey messages model temperature max_tokens
                                   stream
                            else cache_hit L e w1 apiKey model cachedResponse)))"

subsection \<open>An instance of the parameters\<close>

text \<open>
  To run the handlers on concrete requests the parameters are instantiated: a price of
  0.0005 per token; a digest that keeps the last 32 characters of its input; for the
  text of a number, its sign, its integer part in decimal and, when it is not an
  integer, a point and up to 20 digits of its fraction (\<^verbatim>\<open>0.7\<close>, \<^verbatim>\<open>9.95\<close>, \<^verbatim>\<open>100\<close>); and
  a \<^verbatim>\<open>JSON.parse\<close> that reads the texts of the documents of the examples.
\<close>

definition decimal_digit :: "nat \<Rightarrow> char" where
  "decimal_digit n = ''0123456789'' ! n"

fun decimal :: "nat \<Rightarrow> string" where
  "decimal n = (if n < 10 then [decimal_digit n] else decimal (n div 10) @ [decimal_digit (n mod 10)])"

fun fraction_digits :: "nat \<Rightarrow> rat \<Rightarrow> string" where
  "fraction_digits 0 r = []"
| "fraction_digits (Suc n) r =
     (if r = 0 then []
      else decimal_digit (nat \<lfloor>10 * r\<rfloor>)
           # fraction_digits n (10 * r - of_int \<lfloor>10 * r\<rfloor>))"

definition demo_number :: "rat \<Rightarrow> string" where
  "demo_number q =
     (if q < 0 then ''-'' else []) @ decimal (nat \<lfloor>\<bar>q\<bar>\<rfloor>)
     @ (if \<bar>q\<bar> = of_int \<lfloor>\<bar>q\<bar>\<rfloor> then []
        else ''.'' @ fraction_digits 20 (\<bar>q\<bar> - of_int \<lfloor>\<bar>q\<bar>\<rfloor>))"

definition completion_100 :: json where
  "completion_100 =
     JObj [(''id'', JStr ''c1''), (''usage'', JObj [(''total_tokens'', JNum (Finite 100))])]"

definition completion_2000 :: json where
  "completion_2000 =
     JObj [(''id'', JStr ''c2''), (''usage'', JObj [(''total_tokens'', JNum (Finite 2000))])]"

definition content_frame :: json where
  "content_frame = JObj [(''choices'', JArr [JStr ''Hi''])]"

definition second_frame :: json where
  "second_frame = JObj [(''choices'', JArr [JStr ''there''])]"

definition usage_frame :: json where
  "usage_frame = JObj [(''usage'', JObj [(''total_tokens'', JNum (Finite 100))])]"

definition demo_parse :: "string \<Rightarrow> json option" where
  "demo_parse s =
     (if s = stringify demo_number completion_100 then Some completion_100
      else if s = stringify demo_number completion_2000 then Some completion_2000
      else if s = stringify demo_number content_frame then Some content_frame
      else if s = stringify demo_number second_frame then Some second_frame
      else if s = stringify demo_number usage_frame then Some usage_frame
      else None)"

definition demo_lib :: lib where
  "demo_lib =
     \<lparr>calculateCost = (\<lambda>model t. case t of Some (JNum (Finite n)) \<Rightarrow> n / 2000 | _ \<Rightarrow> 0),
      md5_hex = (\<lambda>s. take 32 (rev s @ replicate 32 (CHR ''0''))),
      Number_toString = demo_number,
      JSON_parse = demo_parse\<rparr>"

definition env0 :: env where
  "env0 =
     \<lparr>date_now = 1700000000000, math_random = 1 / 2, redis_up = True,
      axios_post = Inr (Data completion_100), event_loop = [],
      AZURE_OPENAI_ENDPOINT = Some ''https://example.openai.azure.com'',
      AZURE_OPENAI_API_KEY = Some ''secret'',
      AZURE_GPT4_DEPLOYMENT_NAME = Some ''dep-gpt4'',
      AZURE_OPENAI_DEPLOYMENT_NAME = Some ''dep-gpt4o'',
      AZURE_GPT35_DEPLOYMENT_NAME = Some ''dep-gpt35''\<rparr>"

definition wallet_k1 :: wallet where
  "wallet_k1 = \<lparr>userId = Some ''u1'', balance = 10\<rparr>"

definition world0 :: world where
  "world0 =
     \<lparr>wallets = [''k1'' \<mapsto> wallet_k1], ledger = [], walletCache = Map.empty,
      redis = Map.empty, rate_limits = Map.empty, calls = []\<rparr>"

definition request0 :: request where
  "request0 =
     \<lparr>header_api_key = Some ''k1'',
      request_json = Inr \<lparr>body_messages = [JStr ''hello''], body_model = None,
                          body_temperature = None, body_max_tokens = None,
                          body_stream = None\<rparr>\<rparr>"

subsection \<open>Notions the claims are stated with\<close>


fun is_rateLimit_call :: "call \<Rightarrow> bool" where
  "is_rateLimit_call (Call_rateLimit u) = True"
| "is_rateLimit_call c = False"

fun is_updateWalletBalance_call :: "call \<Rightarrow> bool" where
  "is_updateWalletBalance_call (Call_updateWalletBalance u a d) = True"
| "is_updateWalletBalance_call c = False"



text \<open>The last of a list of frames, and whether a frame has a usage record.\<close>

definition last_frame :: "json list \<Rightarrow> json option" where
  "last_frame fs = (if fs = [] then None else Some (last fs))"

definition carries_usage :: "json \<Rightarrow> bool" where
  "carries_usage f = truthy (optional_usage (Some f))"













text \<open>
  For the fingerprint. \<open>finite_numbers qs j\<close>: every number in the JSON value \<open>j\<close> is
  finite and among \<open>qs\<close>. \<open>number_texts f qs\<close>: the texts \<open>f\<close> gives to the numbers \<open>qs\<close>
  are not empty, are made of digits, signs, the point and \<^verbatim>\<open>e\<close>, and are different for
  different numbers, as the texts of \<^verbatim>\<open>Number.prototype.toString\<close> are.
\<close>

definition number_chars :: string where
  "number_chars = ''0123456789+-.e''"

fun finite_numbers :: "rat list \<Rightarrow> json \<Rightarrow> bool" where
  "finite_numbers qs JNull = True"
| "finite_numbers qs (JBool b) = True"
| "finite_numbers qs (JNum n) = (case n of Finite q \<Rightarrow> q \<in> set qs | _ \<Rightarrow> False)"
| "finite_numbers qs (JStr s) = True"
| "finite_numbers qs (JArr xs) = list_all (finite_numbers qs) xs"
| "finite_numbers qs (JObj kvs) = list_all (\<lambda>kv. finite_numbers qs (snd kv)) kvs"

definition number_texts :: "(rat \<Rightarrow> string) \<Rightarrow> rat list \<Rightarrow> bool" where
  "number_texts f qs =
     (list_all (\<lambda>q. f q \<noteq> [] \<and> list_all (\<lambda>c. c \<in> set number_chars) (f q)) qs \<and>
      list_all (\<lambda>a. list_all (\<lambda>b. a = b \<or> f a \<noteq> f b) qs) qs)"

text \<open>
  MD5 does not give two different texts the same digest.
\<close>

definition no_collision :: "lib \<Rightarrow> string \<Rightarrow> string \<Rightarrow> bool" where
  "no_collision L a b = (a = b \<or> md5_hex L a \<noteq> md5_hex L b)"

text \<open>
  For the proof that the text of a string can be read back: the character an escape
  sequence at the head of a text stands for, with the rest of the text.
\<close>

definition hex_value :: "char \<Rightarrow> nat" where
  "hex_value h = length (takeWhile (\<lambda>d. d \<noteq> h) ''0123456789abcdef'')"

definition unescape_char :: "string \<Rightarrow> (char \<times> string) option" where
  "unescape_char text =
     (case text of
        [] \<Rightarrow> None
      | a # rest \<Rightarrow>
          if a \<noteq> backslash then Some (a, rest)
          else (case rest of
                  [] \<Rightarrow> None
                | b # rest' \<Rightarrow>
                    if b = CHR ''b'' then Some (CHR 0x08, rest')
                    else if b = CHR ''t'' then Some (CHR 0x09, rest')
                    else if b = CHR ''n'' then Some (CHR 0x0A, rest')
                    else if b = CHR ''f'' then Some (CHR 0x0C, rest')
                    else if b = CHR ''r'' then Some (CHR 0x0D, rest')
                    else if b = CHR ''u'' then
                      (case rest' of
                         z1 # z2 # h1 # h2 # rest'' \<Rightarrow>
                           Some (char_of (16 * hex_value h1 + hex_value h2), rest'')
                       | _ \<Rightarrow> None)
                    else Some (b, rest')))"

text \<open>The wallets the gateway can resolve an API key to: from the store, from the cache.\<close>

definition known_wallets :: "world \<Rightarrow> string \<Rightarrow> wallet list" where
  "known_wallets w apiKey =
     (case wallets w apiKey of None \<Rightarrow> [] | Some wl \<Rightarrow> [wl])
     @ (case walletCache w apiKey of None \<Rightarrow> [] | Some (c, stamp) \<Rightarrow> [c])"

text \<open>No wallet the gateway can resolve the API key to has a \<^verbatim>\<open>userId\<close>.\<close>

definition anonymous :: "world \<Rightarrow> string \<Rightarrow> bool" where
  "anonymous w apiKey = list_all (\<lambda>wl. \<not> truthy_string (userId wl)) (known_wallets w apiKey)"

text \<open>
  The rate limiter is left alone between two states: no window has changed and the trace
  has gained no call of \<open>rateLimit\<close>. \<open>upstream_status\<close> is the HTTP status of the
  upstream response when the upstream call was rejected with one.
\<close>

definition limiter_untouched :: "world \<Rightarrow> world \<Rightarrow> bool" where
  "limiter_untouched w w' =
     (rate_limits w' = rate_limits w \<and>
      filter is_rateLimit_call (calls w') = filter is_rateLimit_call (calls w))"

definition upstream_status :: "env \<Rightarrow> nat option" where
  "upstream_status e = (case axios_post e of Inl ex \<Rightarrow> response_status ex | Inr d \<Rightarrow> None)"

text \<open>The examples: the state after a first request, a later clock, and other requests.\<close>

definition world1 :: world where
  "world1 = snd (POST_2 demo_lib env0 world0 request0)"

definition env1 :: env where
  "env1 = env0\<lparr>date_now := 1700000001000\<rparr>"

definition request_temperature :: request where
  "request_temperature =
     \<lparr>header_api_key = Some ''k1'',
      request_json = Inr \<lparr>body_messages = [JStr ''hello''], body_model = None,
                          body_temperature = Some (Finite (7 / 10)), body_max_tokens = None,
                          body_stream = None\<rparr>\<rparr>"

definition request_unknown_key :: request where
  "request_unknown_key = request0\<lparr>header_api_key := Some ''nobody''\<rparr>"

definition request_unknown_model :: request where
  "request_unknown_model =
     \<lparr>header_api_key = Some ''k1'',
      request_json = Inr \<lparr>body_messages = [JStr ''hello''], body_model = Some ''gpt-5'',
                          body_temperature = None, body_max_tokens = None,
                          body_stream = None\<rparr>\<rparr>"














text \<open>
  A window of three entries, one of them older than 60 seconds at the clock of \<open>env0\<close>,
  and an environment in which Redis cannot be reached.
\<close>

definition window_of_three :: zstore where
  "window_of_three =
     [''rate_limit:acct'' \<mapsto>
        ([((1699999900, 1 / 3), 1699999900), ((1699999990, 1 / 4), 1699999990),
          ((1700000000, 1 / 5), 1700000000)],
         Some 1700000050000)]"

definition env_redis_down :: env where
  "env_redis_down = env0\<lparr>redis_up := False\<rparr>"

definition world_poor :: world where
  "world_poor = world0\<lparr>wallets := [''k1'' \<mapsto> \<lparr>userId = Some ''u1'', balance = 1 / 1000\<rparr>]\<rparr>"

definition env_2000 :: env where
  "env_2000 = env0\<lparr>axios_post := Inr (Data completion_2000)\<rparr>"

definition world_busy :: world where
  "world_busy =
     world0\<lparr>rate_limits :=
              [''rate_limit:u1'' \<mapsto>
                 (map (\<lambda>i. ((1700000000, of_nat i), 1700000000)) [0..<60],
                  Some 1700000060000)]\<rparr>"

definition world_anonymous :: world where
  "world_anonymous = world0\<lparr>wallets := [''k1'' \<mapsto> \<lparr>userId = None, balance = 10\<rparr>]\<rparr>"

section \<open>The rate limiter: claims C5 and C6\<close>

lemma zadd_fresh: "m \<notin> fst ` set zs \<Longrightarrow> zadd zs sc m = zs @ [(m, sc)]"
  by (induction zs) auto

lemma zremrangebyscore_keep:
  "\<forall>(m, s) \<in> set zs. hi < s \<Longrightarrow> zremrangebyscore zs lo hi = zs"
  unfolding zremrangebyscore_def by (induction zs) auto

lemma rateLimit_up:
  assumes up: "redis_up e"
    and young: "\<forall>(m, s) \<in> set (zset_at (date_now e) st (rate_limit_key u)). date_now e div 1000 - 60 < s"
    and fresh: "(date_now e div 1000, math_random e) \<notin> fst ` set (zset_at (date_now e) st (rate_limit_key u))"
  shows "success (fst (rateLimit e st u)) = (length (zset_at (date_now e) st (rate_limit_key u)) < 60)"
    and "snd (rateLimit e st u) =
          st(rate_limit_key u \<mapsto>
             (zset_at (date_now e) st (rate_limit_key u)
                @ [((date_now e div 1000, math_random e), date_now e div 1000)],
              Some (date_now e + 60000)))"
proof -
  let ?zs = "zset_at (date_now e) st (rate_limit_key u)"
  have keep: "zremrangebyscore ?zs 0 (date_now e div 1000 - 60) = ?zs"
    using young by (simp add: zremrangebyscore_keep)
  show "success (fst (rateLimit e st u)) = (length ?zs < 60)"
    using up by (simp add: rateLimit_def Let_def RATE_LIMIT_window_def keep zcard_def RATE_LIMIT_requests_def not_le)
  show "snd (rateLimit e st u) =
          st(rate_limit_key u \<mapsto>
             (?zs @ [((date_now e div 1000, math_random e), date_now e div 1000)],
              Some (date_now e + 60000)))"
    using up fresh by (simp add: rateLimit_def Let_def keep zadd_fresh RATE_LIMIT_window_def)
qed

lemma calls_window:
  assumes "\<forall>e \<in> set es. redis_up e \<and> t0 \<le> date_now e \<and> date_now e \<le> t0 + 1000"
    and "\<forall>t. t0 \<le> t \<and> t \<le> t0 + 1000 \<longrightarrow> zset_at t st (rate_limit_key u) = zs"
    and "\<forall>(m, s) \<in> set zs. (t0 + 1000) div 1000 - 60 < s"
    and "distinct (map fst zs @ map member_of es)"
  shows "map success (fst (rateLimit_calls st u es)) = map (\<lambda>i. length zs + i < 60) [0..<length es]"
  using assms
proof (induction es arbitrary: st zs)
  case Nil
  then show ?case by simp
next
  case (Cons e es)
  let ?k = "rate_limit_key u"
  let ?zs' = "zs @ [(member_of e, date_now e div 1000)]"
  from Cons.prems(1) have up: "redis_up e" and lo: "t0 \<le> date_now e" and hi: "date_now e \<le> t0 + 1000"
    by auto
  from Cons.prems(2) lo hi have live: "zset_at (date_now e) st ?k = zs" by blast
  have "date_now e div 1000 \<le> (t0 + 1000) div 1000" using hi by (simp add: zdiv_mono1)
  with Cons.prems(3) have young: "\<forall>(m, s) \<in> set zs. date_now e div 1000 - 60 < s" by fastforce
  from Cons.prems(4) have fresh: "member_of e \<notin> fst ` set zs" by auto
  have s1: "success (fst (rateLimit e st u)) = (length zs < 60)"
    using rateLimit_up(1)[of e st u] up young fresh live by (simp add: member_of_def)
  have s2: "snd (rateLimit e st u) = st(?k \<mapsto> (?zs', Some (date_now e + 60000)))"
    using rateLimit_up(2)[of e st u] up young fresh live by (simp add: member_of_def)
  have p2: "\<forall>t. t0 \<le> t \<and> t \<le> t0 + 1000 \<longrightarrow> zset_at t (snd (rateLimit e st u)) ?k = ?zs'"
    using lo by (simp add: s2 zset_at_def)
  have "t0 div 1000 \<le> date_now e div 1000" using lo by (simp add: zdiv_mono1)
  then have p3: "\<forall>(m, s) \<in> set ?zs'. (t0 + 1000) div 1000 - 60 < s"
    using Cons.prems(3) by auto
  have p4: "distinct (map fst ?zs' @ map member_of es)"
    using Cons.prems(4) by auto
  have p1: "\<forall>e \<in> set es. redis_up e \<and> t0 \<le> date_now e \<and> date_now e \<le> t0 + 1000"
    using Cons.prems(1) by simp
  have ih: "map success (fst (rateLimit_calls (snd (rateLimit e st u)) u es)) =
            map (\<lambda>i. length ?zs' + i < 60) [0..<length es]"
    by (rule Cons.IH[OF p1 p2 p3 p4])
  have "map success (fst (rateLimit_calls st u (e # es))) =
        success (fst (rateLimit e st u)) # map success (fst (rateLimit_calls (snd (rateLimit e st u)) u es))"
    by (simp split: prod.splits)
  also have "\<dots> = (length zs < 60) # map (\<lambda>i. length zs + Suc i < 60) [0..<length es]"
    using s1 ih by simp
  also have "\<dots> = map (\<lambda>i. length zs + i < 60) [0..<length (e # es)]"
    by (simp add: map_upt_Suc del: upt_Suc)
  finally show ?case .
qed

lemma rateLimit_calls_Cons:
  "rateLimit_calls st u (e # es) =
     (fst (rateLimit e st u) # fst (rateLimit_calls (snd (rateLimit e st u)) u es),
      snd (rateLimit_calls (snd (rateLimit e st u)) u es))"
  by (simp split: prod.splits)

lemma calls_expiry:
  assumes "\<forall>e \<in> set es. redis_up e" and "es \<noteq> []"
  shows "\<exists>zs. snd (rateLimit_calls st u es) (rate_limit_key u) = Some (zs, Some (date_now (last es) + 60000))"
  using assms
proof (induction es arbitrary: st)
  case Nil
  then show ?case by simp
next
  case (Cons e es)
  show ?case
  proof (cases "es = []")
    case True
    with Cons.prems show ?thesis
      by (simp add: rateLimit_calls_Cons rateLimit_def Let_def RATE_LIMIT_window_def del: rateLimit_calls.simps(2))
  next
    case False
    with Cons.prems Cons.IH[of "snd (rateLimit e st u)"] show ?thesis
      by (simp add: rateLimit_calls_Cons del: rateLimit_calls.simps(2))
  qed
qed

lemma first_sixty: "map (\<lambda>i::nat. i < 60) [0..<61] = replicate 60 True @ [False]"
  by code_simp

lemma zset_at_empty_later:
  "zset_at t0 st k = [] \<Longrightarrow> t0 \<le> t \<Longrightarrow> zset_at t st k = []"
  by (auto simp: zset_at_def split: option.splits prod.splits if_splits)

text \<open>
  Claim C5. Start from an empty rate window of an account. Let 61 calls of \<open>rateLimit\<close>
  for the account follow each other within one second (their clock readings lie between
  \<open>t0\<close> and \<open>t0 + 1000\<close> milliseconds), with Redis reachable and the members
  \<^verbatim>\<open>`${now}-${Math.random()}`\<close> of the calls pairwise distinct. Then the first 60 calls
  succeed and the 61st fails; and a call that comes more than 60 seconds after every one
  of them, with no call in between, succeeds again.
\<close>

theorem rateLimit_sliding_window:
  assumes empty: "zset_at t0 st (rate_limit_key u) = []"
    and len: "length es = 61"
    and within: "\<forall>e \<in> set es. redis_up e \<and> t0 \<le> date_now e \<and> date_now e \<le> t0 + 1000"
    and tiebreak: "distinct (map (\<lambda>e. (date_now e div 1000, math_random e)) es)"
    and later: "redis_up e' \<and> (\<forall>e \<in> set es. date_now e + 60000 < date_now e')"
  shows "map success (fst (rateLimit_calls st u es)) = replicate 60 True @ [False] \<and>
         success (fst (rateLimit e' (snd (rateLimit_calls st u es)) u))"
proof
  have live: "\<forall>t. t0 \<le> t \<and> t \<le> t0 + 1000 \<longrightarrow> zset_at t st (rate_limit_key u) = []"
    using empty zset_at_empty_later by blast
  have d: "distinct (map fst ([] :: zset) @ map member_of es)"
    using tiebreak by (simp add: member_of_def[abs_def])
  have "map success (fst (rateLimit_calls st u es)) =
        map (\<lambda>i. length ([] :: zset) + i < 60) [0..<length es]"
    by (rule calls_window[OF within live _ d]) simp
  then show "map success (fst (rateLimit_calls st u es)) = replicate 60 True @ [False]"
    using len first_sixty by simp
next
  let ?st' = "snd (rateLimit_calls st u es)"
  from len have ne: "es \<noteq> []" by auto
  from within have ups: "\<forall>e \<in> set es. redis_up e" by blast
  obtain zs where stored: "?st' (rate_limit_key u) = Some (zs, Some (date_now (last es) + 60000))"
    using calls_expiry[OF ups ne] by blast
  from ne later have "date_now (last es) + 60000 < date_now e'" by simp
  with stored have "zset_at (date_now e') ?st' (rate_limit_key u) = []"
    by (simp add: zset_at_def)
  with later show "success (fst (rateLimit e' ?st' u))"
    by (simp add: rateLimit_def Let_def zremrangebyscore_def zcard_def RATE_LIMIT_requests_def)
qed

theorem rateLimit_sliding_window_witness:
  "zset_at 1700000000000 Map.empty (rate_limit_key ''acct'') = [] \<and>
   length (map (\<lambda>i. env0\<lparr>math_random := of_nat i\<rparr>) [0..<61]) = 61 \<and>
   list_all (\<lambda>e. redis_up e \<and> 1700000000000 \<le> date_now e \<and> date_now e \<le> 1700000000000 + 1000)
     (map (\<lambda>i. env0\<lparr>math_random := of_nat i\<rparr>) [0..<61]) \<and>
   distinct (map (\<lambda>e. (date_now e div 1000, math_random e))
               (map (\<lambda>i. env0\<lparr>math_random := of_nat i\<rparr>) [0..<61])) \<and>
   redis_up (env0\<lparr>date_now := 1700000060001\<rparr>) \<and>
   list_all (\<lambda>e. date_now e + 60000 < date_now (env0\<lparr>date_now := 1700000060001\<rparr>))
     (map (\<lambda>i. env0\<lparr>math_random := of_nat i\<rparr>) [0..<61]) \<and>
   map success (fst (rateLimit_calls Map.empty ''acct''
                  (map (\<lambda>i. env0\<lparr>math_random := of_nat i\<rparr>) [0..<61]))) =
     replicate 60 True @ [False] \<and>
   success (fst (rateLimit (env0\<lparr>date_now := 1700000060001\<rparr>)
                  (snd (rateLimit_calls Map.empty ''acct''
                         (map (\<lambda>i. env0\<lparr>math_random := of_nat i\<rparr>) [0..<61]))) ''acct''))"
proof -
  let ?es = "map (\<lambda>i. env0\<lparr>math_random := of_nat i\<rparr>) [0..<61]"
  let ?e' = "env0\<lparr>date_now := 1700000060001\<rparr>"
  have h1: "zset_at 1700000000000 Map.empty (rate_limit_key ''acct'') = []"
    by (simp add: zset_at_def)
  have h2: "length ?es = 61" by simp
  have h3: "\<forall>e \<in> set ?es. redis_up e \<and> 1700000000000 \<le> date_now e \<and> date_now e \<le> 1700000000000 + 1000"
    by (simp add: env0_def del: upt_Suc)
  have h4: "distinct (map (\<lambda>e. (date_now e div 1000, math_random e)) ?es)"
    by (simp add: distinct_map inj_on_def comp_def del: upt_Suc)
  have h5: "redis_up ?e' \<and> (\<forall>e \<in> set ?es. date_now e + 60000 < date_now ?e')"
    by (simp add: env0_def del: upt_Suc)
  from rateLimit_sliding_window[OF h1 h2 h3 h4 h5] h1 h2 h3 h4 h5 show ?thesis
    unfolding list_all_iff by blast
qed

lemma zset_at_not_negative:
  assumes "timestamps_not_negative st u"
  shows "list_all (\<lambda>(m, s). 0 \<le> s) (zset_at t st (rate_limit_key u))"
proof (cases "st (rate_limit_key u)")
  case None
  then show ?thesis by (simp add: zset_at_def)
next
  case (Some p)
  obtain zs ex where p: "p = (zs, ex)" by (cases p)
  from assms Some p have "list_all (\<lambda>(m, s). 0 \<le> s) zs"
    by (simp add: timestamps_not_negative_def)
  with Some p show ?thesis by (cases ex) (simp_all add: zset_at_def)
qed

lemma purge_surviving:
  assumes "timestamps_not_negative st u"
  shows "zremrangebyscore (zset_at (date_now e) st (rate_limit_key u)) 0
           (date_now e div 1000 - RATE_LIMIT_window) = surviving e st u"
proof -
  have "list_all (\<lambda>(m, s). 0 \<le> s) (zset_at (date_now e) st (rate_limit_key u))"
    by (rule zset_at_not_negative[OF assms])
  then show ?thesis
    unfolding surviving_def zremrangebyscore_def RATE_LIMIT_window_def list_all_iff
    by (intro filter_cong) auto
qed

lemma zadd_not_negative:
  "list_all (\<lambda>(m, s). (0::int) \<le> s) zs \<Longrightarrow> 0 \<le> sc \<Longrightarrow>
   list_all (\<lambda>(m, s). 0 \<le> s) (zadd zs sc m)"
  by (induction zs) auto

lemma zremrangebyscore_not_negative:
  "list_all (\<lambda>(m, s). (0::int) \<le> s) zs \<Longrightarrow>
   list_all (\<lambda>(m, s). 0 \<le> s) (zremrangebyscore zs lo hi)"
  by (induction zs) (auto simp: zremrangebyscore_def)

lemma rateLimit_keeps_timestamps:
  assumes "timestamps_not_negative st u" and "0 \<le> date_now e"
  shows "timestamps_not_negative (snd (rateLimit e st u)) u"
proof (cases "redis_up e")
  case False
  with assms show ?thesis by (simp add: rateLimit_def)
next
  case True
  have "0 \<le> date_now e div 1000" using assms(2) by simp
  with zset_at_not_negative[OF assms(1), of "date_now e"]
  have "list_all (\<lambda>(m, s). 0 \<le> s)
          (zadd (zremrangebyscore (zset_at (date_now e) st (rate_limit_key u)) 0
                   (date_now e div 1000 - RATE_LIMIT_window))
             (date_now e div 1000) (date_now e div 1000, math_random e))"
    by (intro zadd_not_negative zremrangebyscore_not_negative)
  with True show ?thesis
    by (simp add: rateLimit_def Let_def timestamps_not_negative_def)
qed

text \<open>
  Claim C6, as the code has it. Let no timestamp in the window of the account be
  negative (timestamps are readings of the clock; \<open>rateLimit\<close> keeps it so). An
  admission that is allowed while Redis is reachable returns \<open>remaining = 60 - count\<close>,
  where \<open>count\<close> is the number of entries that survive the purge (those with a timestamp
  greater than \<open>now - 60\<close>), before the new entry is added; the admission of the
  fail-open path returns \<open>remaining = 1\<close>.
\<close>

theorem rateLimit_remaining:
  assumes "success (fst (rateLimit e st u))" and "timestamps_not_negative st u"
  shows "remaining (fst (rateLimit e st u)) =
           (if redis_up e then 60 - int (length (surviving e st u)) else 1)"
  using assms(1)
  by (simp add: rateLimit_def Let_def zcard_def RATE_LIMIT_requests_def
        purge_surviving[OF assms(2)] split: if_splits)

theorem rateLimit_remaining_witness:
  "success (fst (rateLimit env0 window_of_three ''acct'')) \<and>
   timestamps_not_negative window_of_three ''acct'' \<and>
   length (surviving env0 window_of_three ''acct'') = 2 \<and>
   remaining (fst (rateLimit env0 window_of_three ''acct'')) = 58 \<and>
   success (fst (rateLimit env_redis_down window_of_three ''acct'')) \<and>
   remaining (fst (rateLimit env_redis_down window_of_three ''acct'')) = 1"
proof -
  have s: "success (fst (rateLimit env0 window_of_three ''acct''))" by code_simp
  have t: "timestamps_not_negative window_of_three ''acct''" by code_simp
  have n: "length (surviving env0 window_of_three ''acct'') = 2" by code_simp
  have u: "redis_up env0" by code_simp
  have s': "success (fst (rateLimit env_redis_down window_of_three ''acct''))" by code_simp
  have d: "\<not> redis_up env_redis_down" by code_simp
  from rateLimit_remaining[OF s t] rateLimit_remaining[OF s' t] s t n u s' d
  show ?thesis by simp
qed

text \<open>
  The first call on an empty window is allowed with \<open>count = 0\<close> and returns
  \<open>remaining = 60\<close>, which is not \<open>60 - count - 1\<close>; a call on a window of three
  entries, two of them with a timestamp greater than \<open>now - 60\<close>, is allowed with
  \<open>count = 2\<close> and returns \<open>remaining = 58\<close>, which is not \<open>60 - count - 1\<close>.
\<close>

theorem rateLimit_remaining_counterexample:
  "success (fst (rateLimit env0 Map.empty ''acct'')) \<and>
   surviving env0 Map.empty ''acct'' = [] \<and>
   remaining (fst (rateLimit env0 Map.empty ''acct'')) = 60 \<and>
   remaining (fst (rateLimit env0 Map.empty ''acct''))
     \<noteq> 60 - int (length (surviving env0 Map.empty ''acct'')) - 1 \<and>
   success (fst (rateLimit env0 window_of_three ''acct'')) \<and>
   surviving env0 window_of_three ''acct'' =
     [((1699999990, 1 / 4), 1699999990), ((1700000000, 1 / 5), 1700000000)] \<and>
   remaining (fst (rateLimit env0 window_of_three ''acct'')) = 58 \<and>
   remaining (fst (rateLimit env0 window_of_three ''acct''))
     \<noteq> 60 - int (length (surviving env0 window_of_three ''acct'')) - 1"
  by code_simp

section \<open>The second handler against the first: claims C1 to C4\<close>

text \<open>
  What the examples below show holds for every input. The cache-hit path writes no
  ledger transaction and changes no balance; the live path debits whatever the balance
  is and leaves the wallet cache as it was; an error thrown by \<open>validateRequest\<close> is
  answered with status 500.
\<close>

lemma getCachedWallet_ledger:
  "ledger (snd (getCachedWallet e w k)) = ledger w \<and>
   wallets (snd (getCachedWallet e w k)) = wallets w"
  by (simp add: getCachedWallet_def getWalletByApiKey_def log_call_def Let_def
        split: option.splits prod.splits)

lemma validateRequest_ledger:
  "ledger (snd (validateRequest e w k m)) = ledger w \<and>
   wallets (snd (validateRequest e w k m)) = wallets w"
proof -
  obtain r w1 where g: "getCachedWallet e w k = (r, w1)" by (cases "getCachedWallet e w k")
  have "ledger w1 = ledger w \<and> wallets w1 = wallets w"
    using getCachedWallet_ledger[of e w k] g by simp
  then show ?thesis
    by (cases r) (auto simp: validateRequest_def g Let_def log_call_def split: option.splits prod.splits)
qed

lemma cache_hit_never_debits:
  "ledger (snd (cache_hit L e w k m c)) = ledger w \<and>
   wallets (snd (cache_hit L e w k m c)) = wallets w"
proof -
  obtain r w1 where v: "validateRequest e w k m = (r, w1)" by (cases "validateRequest e w k m")
  have "ledger w1 = ledger w \<and> wallets w1 = wallets w"
    using validateRequest_ledger[of e w k m] v by simp
  then show ?thesis
    by (auto simp: cache_hit_def v Let_def split: option.splits sum.splits)
qed

lemma complete_2_debits_any_balance:
  assumes "axios_post e = Inr (Data j)" and "usage_total_tokens j = Inr t"
  shows "ledger (snd (complete_2 L e w k wl d ms m tp x)) =
           ledger w @ [\<lparr>accountId = userId wl, delta = - calculateCost L m t,
                         description = chat_description m, timestamp = date_now e\<rparr>] \<and>
         status (fst (complete_2 L e w k wl d ms m tp x)) = 200 \<and>
         walletCache (snd (complete_2 L e w k wl d ms m tp x)) = walletCache w"
  using assms
  by (simp add: complete_2_def Let_def log_call_def updateWalletBalance_def redis_setex_def)

lemma validateRequest_error_500:
  "fst (validateRequest e w k m) = Inl ex \<Longrightarrow> status (catch_2 ex) = 500"
proof -
  obtain r w1 where g: "getCachedWallet e w k = (r, w1)" by (cases "getCachedWallet e w k")
  show "fst (validateRequest e w k m) = Inl ex \<Longrightarrow> status (catch_2 ex) = 500"
    by (cases r)
       (auto simp: validateRequest_def g Let_def catch_2_def NextResponse_json_error_def
          split: option.splits prod.splits if_splits)
qed

text \<open>
  Claim C1 (a cache hit is billed like a live call) at the end-to-end example of the
  specification: key \<open>k1\<close> with balance 10, 100 tokens, cost 0.05. The first request is
  answered live and leaves \<open>world1\<close>. The same request one second later is answered
  from the response cache with \<open>cached\<close>, cost 0.05 and remaining balance 9.95; the
  handler makes no call of \<open>updateWalletBalance\<close>, the ledger keeps its single
  transaction and the balance of the account stays 9.95.
\<close>

theorem cache_hit_is_not_debited:
  "fst (POST_2 demo_lib env1 world1 request0) =
     \<lparr>status = 200,
      response_body = Completion_body completion_100 (1 / 20) (199 / 20) (Some True)\<rparr> \<and>
   ledger (snd (POST_2 demo_lib env1 world1 request0)) = ledger world1 \<and>
   length (ledger world1) = 1 \<and>
   wallets (snd (POST_2 demo_lib env1 world1 request0)) ''k1'' = wallets world1 ''k1'' \<and>
   filter is_updateWalletBalance_call (calls (snd (POST_2 demo_lib env1 world1 request0))) =
     filter is_updateWalletBalance_call (calls world1)"
  by code_simp

text \<open>
  Claim C2 (insufficient funds: 402 and no debit) at the example of the specification:
  balance 0.001, cost 1. The live path of the second handler answers 200, writes the
  ledger transaction and leaves the balance at -0.999; the first handler, on the same
  request, answers 402 and writes nothing.
\<close>

theorem live_call_overdraws:
  "wallets world_poor ''k1'' = Some \<lparr>userId = Some ''u1'', balance = 1 / 1000\<rparr> \<and>
   fst (POST_2 demo_lib env_2000 world_poor request0) =
     \<lparr>status = 200,
      response_body = Completion_body completion_2000 1 (- (999 / 1000)) None\<rparr> \<and>
   ledger (snd (POST_2 demo_lib env_2000 world_poor request0)) =
     [\<lparr>accountId = Some ''u1'', delta = - 1, description = ''Chat completion (gpt-4o)'',
       timestamp = 1700000000000\<rparr>] \<and>
   wallets (snd (POST_2 demo_lib env_2000 world_poor request0)) ''k1'' =
     Some \<lparr>userId = Some ''u1'', balance = - (999 / 1000)\<rparr> \<and>
   fst (POST_1 demo_lib env_2000 world_poor request0) =
     \<lparr>status = 402, response_body = Error_body ''Insufficient funds''\<rparr> \<and>
   ledger (snd (POST_1 demo_lib env_2000 world_poor request0)) = []"
  by code_simp

text \<open>
  Claim C3 (the cached wallet balance is overwritten after a debit). After the debit of
  the first request the account holds 9.95, and the decremented wallet is stored under
  the Redis key \<^verbatim>\<open>wallet:k1\<close>; \<open>getCachedWallet\<close> reads the in-process \<open>walletCache\<close>,
  which still gives balance 10 one second later. A second live request (another
  temperature, so no cache hit) reports the remaining balance 9.95 again while the
  account goes to 9.90.
\<close>

theorem wallet_cache_keeps_old_balance:
  "wallets world1 ''k1'' = Some \<lparr>userId = Some ''u1'', balance = 199 / 20\<rparr> \<and>
   fst (redis_get env1 world1 ''wallet:k1'') =
     Some (JSON_stringify demo_lib (wallet_json \<lparr>userId = Some ''u1'', balance = 199 / 20\<rparr>)) \<and>
   fst (getCachedWallet env1 world1 ''k1'') = Some \<lparr>userId = Some ''u1'', balance = 10\<rparr> \<and>
   fst (POST_2 demo_lib env1 world1 request_temperature) =
     \<lparr>status = 200,
      response_body = Completion_body completion_100 (1 / 20) (199 / 20) None\<rparr> \<and>
   wallets (snd (POST_2 demo_lib env1 world1 request_temperature)) ''k1'' =
     Some \<lparr>userId = Some ''u1'', balance = 99 / 10\<rparr>"
  by code_simp

text \<open>
  Claim C4 (401 for an invalid key, 429 when rate limited, 400 for an unmapped model).
  The second handler answers status 500 to an unknown API key, to an unmapped model and
  to an account with 60 requests in its window; the first handler answers 401, 400 and
  429 to the same requests.
\<close>

theorem second_handler_answers_500:
  "fst (POST_2 demo_lib env0 world0 request_unknown_key) =
     \<lparr>status = 500, response_body = Error_body ''Invalid API key''\<rparr> \<and>
   fst (POST_1 demo_lib env0 world0 request_unknown_key) =
     \<lparr>status = 401, response_body = Error_body ''Invalid API key''\<rparr> \<and>
   fst (POST_2 demo_lib env0 world0 request_unknown_model) =
     \<lparr>status = 500, response_body = Error_body ''Invalid model specified''\<rparr> \<and>
   fst (POST_1 demo_lib env0 world0 request_unknown_model) =
     \<lparr>status = 400, response_body = Error_body ''Invalid model specified''\<rparr> \<and>
   fst (POST_2 demo_lib env0 world_busy request0) =
     \<lparr>status = 500, response_body = Error_body ''Rate limit exceeded''\<rparr> \<and>
   fst (POST_1 demo_lib env0 world_busy request0) =
     \<lparr>status = 429,
      response_body = Error_body ''Rate limit exceeded. Please try again later.''\<rparr>"
  by code_simp

section \<open>The stream: claims C7 and C8\<close>



lemma world_calls_same: "w\<lparr>calls := calls w\<rparr> = (w :: world)"
  by simp













lemma filter_update_writes:
  "filter is_updateWalletBalance_call (map (\<lambda>f. Writer_write (g f)) fs) = []"
  by (induction fs) simp_all






lemma no_usage_frame_last:
  assumes "list_all (\<lambda>f. \<not> carries_usage f) fs"
  shows "\<not> truthy (optional_usage (last_frame fs))"
proof (cases "fs = []")
  case True
  then show ?thesis by (simp add: last_frame_def)
next
  case False
  then have "last fs \<in> set fs" by simp
  with assms have "\<not> carries_usage (last fs)" by (simp add: list_all_iff)
  with False show ?thesis by (simp add: last_frame_def carries_usage_def)
qed











section \<open>A wallet without userId: claim C10\<close>

lemma limiter_untouched_refl: "limiter_untouched w w"
  by (simp add: limiter_untouched_def)

lemma limiter_untouched_trans:
  "limiter_untouched w w1 \<Longrightarrow> limiter_untouched w1 w2 \<Longrightarrow> limiter_untouched w w2"
  by (simp add: limiter_untouched_def)

lemma limiter_untouched_log_call:
  "\<not> is_rateLimit_call c \<Longrightarrow> limiter_untouched w (log_call c w)"
  by (simp add: limiter_untouched_def log_call_def)

lemma limiter_untouched_updateWalletBalance:
  "limiter_untouched w (updateWalletBalance e w uid a d)"
  by (simp add: limiter_untouched_def updateWalletBalance_def log_call_def)

lemma limiter_untouched_redis_setex: "limiter_untouched w (redis_setex e w k ttl v)"
  by (simp add: limiter_untouched_def redis_setex_def log_call_def)

lemma limiter_untouched_redis_get: "limiter_untouched w (snd (redis_get e w k))"
  by (simp add: limiter_untouched_def redis_get_def log_call_def)

lemma limiter_untouched_getCachedWallet: "limiter_untouched w (snd (getCachedWallet e w k))"
  by (simp add: limiter_untouched_def getCachedWallet_def getWalletByApiKey_def log_call_def
        Let_def split: option.splits prod.splits)

lemma getCachedWallet_known:
  "fst (getCachedWallet e w k) = Some wl \<Longrightarrow> wl \<in> set (known_wallets w k)"
  by (auto simp: getCachedWallet_def getWalletByApiKey_def known_wallets_def Let_def
        split: option.splits prod.splits if_splits)

lemma known_wallets_redis_get: "known_wallets (snd (redis_get e w key)) k = known_wallets w k"
  by (simp add: known_wallets_def redis_get_def log_call_def)

lemma validateRequest_anonymous:
  assumes "anonymous w k"
  shows "limiter_untouched w (snd (validateRequest e w k m))"
    and "fst (validateRequest e w k m) \<noteq> Inl (Error ''Rate limit exceeded'')"
    and "fst (validateRequest e w k m) = Inl ex \<Longrightarrow> response_status ex = None"
proof -
  obtain r w1 where g: "getCachedWallet e w k = (r, w1)" by (cases "getCachedWallet e w k")
  have u: "limiter_untouched w w1" using limiter_untouched_getCachedWallet[of w e k] g by simp
  have n: "r = Some wl \<Longrightarrow> \<not> truthy_string (userId wl)" for wl
    using getCachedWallet_known[of e w k wl] g assms by (simp add: anonymous_def list_all_iff)
  show "limiter_untouched w (snd (validateRequest e w k m))"
    using u n by (cases r) (auto simp: validateRequest_def g Let_def split: option.splits)
  show "fst (validateRequest e w k m) \<noteq> Inl (Error ''Rate limit exceeded'')"
    using n by (cases r) (auto simp: validateRequest_def g Let_def split: option.splits)
  show "fst (validateRequest e w k m) = Inl ex \<Longrightarrow> response_status ex = None"
    using n by (cases r) (auto simp: validateRequest_def g Let_def split: option.splits if_splits)
qed

lemma limiter_untouched_tick:
  "limiter_untouched (effects s) (effects (tick_step L e model wl s t))"
  by (auto simp: tick_step_def on_data_def data_loop_def writer_write_def on_end_def
        continue_handler_def limiter_untouched_def log_call_def updateWalletBalance_def Let_def
        split: list.splits suspended.splits sum.splits tick.splits)

lemma limiter_untouched_run:
  "limiter_untouched (effects s) (effects (foldl (tick_step L e model wl) s ts))"
proof (induction ts arbitrary: s)
  case Nil
  then show ?case by (simp add: limiter_untouched_refl)
next
  case (Cons t ts)
  from limiter_untouched_trans[OF limiter_untouched_tick Cons.IH]
  show ?case by simp
qed

lemma limiter_untouched_stream_events:
  "limiter_untouched w (stream_events L e model wl chunks w)"
  using limiter_untouched_run[of "stream_start chunks w" L e model wl "event_loop e"]
  by (simp add: stream_events_def stream_run_def stream_start_def)

lemma catch_2_429: "status (catch_2 ex) = 429 \<Longrightarrow> response_status ex = Some 429"
  by (cases "response_status ex") (simp_all add: catch_2_def NextResponse_json_error_def split: if_splits)

lemma catch_1_429: "status (catch_1 ex) = 429 \<Longrightarrow> response_status ex = Some 429"
  by (cases "response_status ex") (simp_all add: catch_1_def NextResponse_json_error_def split: if_splits)

lemma get_prop_error: "get_prop u p = Inl ex \<Longrightarrow> response_status ex = None"
  by (cases "(u, p)" rule: get_prop.cases) auto

lemma usage_total_tokens_error: "usage_total_tokens x = Inl ex \<Longrightarrow> response_status ex = None"
  by (auto simp: usage_total_tokens_def split: sum.splits dest: get_prop_error)

lemma catch_2_plain: "response_status ex = None \<Longrightarrow> status (catch_2 ex) = 500"
  by (simp add: catch_2_def NextResponse_json_error_def)

lemma catch_1_plain: "response_status ex = None \<Longrightarrow> status (catch_1 ex) = 500"
  by (simp add: catch_1_def NextResponse_json_error_def)

lemma usage_error_2: "usage_total_tokens x = Inl ex \<Longrightarrow> status (catch_2 ex) = 500"
  by (simp add: catch_2_plain usage_total_tokens_error)

lemma usage_error_1: "usage_total_tokens x = Inl ex \<Longrightarrow> status (catch_1 ex) = 500"
  by (simp add: catch_1_plain usage_total_tokens_error)

lemma upstream_429_2: "axios_post e = Inl ex \<Longrightarrow> status (catch_2 ex) = 429 \<Longrightarrow> upstream_status e = Some 429"
  by (simp add: upstream_status_def catch_2_429)

lemma upstream_429_1: "axios_post e = Inl ex \<Longrightarrow> status (catch_1 ex) = 429 \<Longrightarrow> upstream_status e = Some 429"
  by (simp add: upstream_status_def catch_1_429)

lemma complete_2_limiter:
  "limiter_untouched w (snd (complete_2 L e w k wl d ms m t x))"
  "status (fst (complete_2 L e w k wl d ms m t x)) = 429 \<Longrightarrow> upstream_status e = Some 429"
proof -
  have a: "limiter_untouched w (log_call (Call_axios_post d False) w)"
    by (simp add: limiter_untouched_log_call)
  show "limiter_untouched w (snd (complete_2 L e w k wl d ms m t x))"
    using a
    by (auto simp: complete_2_def Let_def split: sum.splits
          intro!: limiter_untouched_trans[OF _ limiter_untouched_redis_setex]
                  limiter_untouched_trans[OF _ limiter_untouched_updateWalletBalance])
  show "status (fst (complete_2 L e w k wl d ms m t x)) = 429 \<Longrightarrow> upstream_status e = Some 429"
    by (auto simp: complete_2_def Let_def usage_error_2 split: sum.splits
          dest: upstream_429_2)
qed

lemma stream_2_limiter:
  "limiter_untouched w (snd (stream_2 L e w wl d m))"
  "status (fst (stream_2 L e w wl d m)) = 429 \<Longrightarrow> upstream_status e = Some 429"
proof -
  have a: "limiter_untouched w (log_call (Call_axios_post d True) w)"
    by (simp add: limiter_untouched_log_call)
  show "limiter_untouched w (snd (stream_2 L e w wl d m))"
    using a
    by (auto simp: stream_2_def Let_def split: sum.splits upstream_data.splits
          intro: limiter_untouched_trans[OF _ limiter_untouched_stream_events])
  show "status (fst (stream_2 L e w wl d m)) = 429 \<Longrightarrow> upstream_status e = Some 429"
    by (auto simp: stream_2_def Let_def catch_2_plain
          split: sum.splits upstream_data.splits dest: upstream_429_2)
qed

lemma validated_2_limiter:
  assumes "anonymous w k"
  shows "limiter_untouched w (snd (validated_2 L e w k ms m t x s))"
    and "status (fst (validated_2 L e w k ms m t x s)) = 429 \<Longrightarrow> upstream_status e = Some 429"
proof -
  obtain r w1 where v: "validateRequest e w k m = (r, w1)" by (cases "validateRequest e w k m")
  have u: "limiter_untouched w w1" using validateRequest_anonymous(1)[OF assms, of e m] v by simp
  have er: "r = Inl ex \<Longrightarrow> status (catch_2 ex) = 500" for ex
    using validateRequest_anonymous(3)[OF assms, of e m ex] v by (simp add: catch_2_plain)
  show "limiter_untouched w (snd (validated_2 L e w k ms m t x s))"
    using u
    by (auto simp: validated_2_def v split: sum.splits
          intro: limiter_untouched_trans[OF _ complete_2_limiter(1)]
                 limiter_untouched_trans[OF _ stream_2_limiter(1)])
  show "status (fst (validated_2 L e w k ms m t x s)) = 429 \<Longrightarrow> upstream_status e = Some 429"
    by (auto simp: validated_2_def v er split: sum.splits if_splits
          dest: complete_2_limiter(2) stream_2_limiter(2))
qed

lemma cache_hit_limiter:
  assumes "anonymous w k"
  shows "limiter_untouched w (snd (cache_hit L e w k m c))"
    and "status (fst (cache_hit L e w k m c)) \<noteq> 429"
proof -
  obtain r w1 where v: "validateRequest e w k m = (r, w1)" by (cases "validateRequest e w k m")
  have u: "limiter_untouched w w1" using validateRequest_anonymous(1)[OF assms, of e m] v by simp
  have er: "r = Inl ex \<Longrightarrow> status (catch_2 ex) = 500" for ex
    using validateRequest_anonymous(3)[OF assms, of e m ex] v by (simp add: catch_2_plain)
  show "limiter_untouched w (snd (cache_hit L e w k m c))"
    using u
    by (auto simp: cache_hit_def v Let_def limiter_untouched_refl split: sum.splits option.splits)
  show "status (fst (cache_hit L e w k m c)) \<noteq> 429"
    by (auto simp: cache_hit_def v Let_def NextResponse_json_error_def er usage_error_2
          catch_2_plain split: sum.splits option.splits if_splits)
qed

lemma anonymous_redis_get: "anonymous (snd (redis_get e w key)) k = anonymous w k"
  by (simp add: anonymous_def known_wallets_redis_get)

lemma POST_2_limiter:
  assumes "header_api_key req = Some k" and "anonymous w k"
  shows "limiter_untouched w (snd (POST_2 L e w req))"
    and "status (fst (POST_2 L e w req)) = 429 \<Longrightarrow> upstream_status e = Some 429"
proof -
  show "limiter_untouched w (snd (POST_2 L e w req))"
  proof (cases "request_json req")
    case (Inl m)
    then show ?thesis by (simp add: POST_2_def limiter_untouched_refl)
  next
    case (Inr b)
    let ?m = "case body_model b of None \<Rightarrow> ''gpt-4o'' | Some m \<Rightarrow> m"
    let ?key = "generateCacheKey L (body_messages b) ?m (body_temperature b) (body_max_tokens b)"
    obtain r w1 where g: "redis_get e w ?key = (r, w1)" by (cases "redis_get e w ?key")
    have u: "limiter_untouched w w1" using limiter_untouched_redis_get[of w e ?key] g by simp
    have a: "anonymous w1 k" using anonymous_redis_get[of e w ?key k] g assms(2) by simp
    show ?thesis
      using assms u
      by (cases r)
         (auto simp: POST_2_def Inr Let_def g limiter_untouched_refl validated_2_limiter(1)
            intro: limiter_untouched_trans[OF _ validated_2_limiter(1)[OF a]]
                   limiter_untouched_trans[OF _ cache_hit_limiter(1)[OF a]])
  qed
  show "status (fst (POST_2 L e w req)) = 429 \<Longrightarrow> upstream_status e = Some 429"
  proof (cases "request_json req")
    case (Inl m)
    then show "status (fst (POST_2 L e w req)) = 429 \<Longrightarrow> upstream_status e = Some 429"
      by (simp add: POST_2_def catch_2_plain)
  next
    case (Inr b)
    let ?m = "case body_model b of None \<Rightarrow> ''gpt-4o'' | Some m \<Rightarrow> m"
    let ?key = "generateCacheKey L (body_messages b) ?m (body_temperature b) (body_max_tokens b)"
    obtain r w1 where g: "redis_get e w ?key = (r, w1)" by (cases "redis_get e w ?key")
    have a: "anonymous w1 k" using anonymous_redis_get[of e w ?key k] g assms(2) by simp
    show "status (fst (POST_2 L e w req)) = 429 \<Longrightarrow> upstream_status e = Some 429"
      using assms
      by (cases r)
         (auto simp: POST_2_def Inr Let_def g catch_2_plain NextResponse_json_error_def
            cache_hit_limiter(2)[OF a]
            split: if_splits
            dest: validated_2_limiter(2)[OF a] validated_2_limiter(2)[OF assms(2)])
  qed
qed

lemma complete_1_limiter:
  "limiter_untouched w (snd (complete_1 L e w wl m))"
  "status (fst (complete_1 L e w wl m)) = 429 \<Longrightarrow> upstream_status e = Some 429"
proof -
  have a: "limiter_untouched w (log_call (Call_axios_post d False) w)" for d
    by (simp add: limiter_untouched_log_call)
  show "limiter_untouched w (snd (complete_1 L e w wl m))"
    using a
    by (auto simp: complete_1_def Let_def limiter_untouched_refl split: sum.splits
          intro!: limiter_untouched_trans[OF _ limiter_untouched_updateWalletBalance])
  show "status (fst (complete_1 L e w wl m)) = 429 \<Longrightarrow> upstream_status e = Some 429"
    by (auto simp: complete_1_def Let_def usage_error_1 NextResponse_json_error_def
          split: sum.splits if_splits dest: upstream_429_1)
qed

lemma POST_1_limiter:
  assumes "header_api_key req = Some k" and "anonymous w k"
  shows "limiter_untouched w (snd (POST_1 L e w req))"
    and "status (fst (POST_1 L e w req)) = 429 \<Longrightarrow> upstream_status e = Some 429"
proof -
  let ?w1 = "log_call (Call_getWalletByApiKey k) w"
  have u: "limiter_untouched w ?w1" by (simp add: limiter_untouched_log_call)
  have n: "wallets w k = Some wl \<Longrightarrow> \<not> truthy_string (userId wl)" for wl
    using assms(2) by (simp add: anonymous_def known_wallets_def)
  have c: "limiter_untouched w (snd (complete_1 L e ?w1 wl m))" for wl m
    by (rule limiter_untouched_trans[OF u complete_1_limiter(1)])
  show "limiter_untouched w (snd (POST_1 L e w req))"
    using assms(1) u c
    by (auto simp: POST_1_def Let_def getWalletByApiKey_def limiter_untouched_refl
          split: sum.splits option.splits dest: n)
  show "status (fst (POST_1 L e w req)) = 429 \<Longrightarrow> upstream_status e = Some 429"
    using assms(1)
    by (auto simp: POST_1_def Let_def getWalletByApiKey_def catch_1_plain validateConfig_def
          NextResponse_json_error_def
          split: sum.splits option.splits if_splits dest: n complete_1_limiter(2))
qed

text \<open>
  Claim C10. Let the request carry an API key, and let no wallet the gateway can resolve
  the key to (from the store or from the wallet cache) have a \<^verbatim>\<open>userId\<close>. Then neither
  handler calls \<open>rateLimit\<close> or changes a rate window, \<open>validateRequest\<close> does not throw
  \<^verbatim>\<open>Rate limit exceeded\<close>, and a response of status 429 can only be the status of the
  upstream provider passed on by the \<^verbatim>\<open>catch\<close>.
\<close>

theorem wallet_without_userId_skips_rate_limit:
  assumes "header_api_key req = Some apiKey" and "anonymous w apiKey"
  shows "limiter_untouched w (snd (POST_2 L e w req)) \<and>
         (status (fst (POST_2 L e w req)) = 429 \<longrightarrow> upstream_status e = Some 429) \<and>
         limiter_untouched w (snd (POST_1 L e w req)) \<and>
         (status (fst (POST_1 L e w req)) = 429 \<longrightarrow> upstream_status e = Some 429) \<and>
         fst (validateRequest e w apiKey m) \<noteq> Inl (Error ''Rate limit exceeded'')"
  using POST_2_limiter[OF assms] POST_1_limiter[OF assms] validateRequest_anonymous(2)[OF assms(2)]
  by blast

theorem wallet_without_userId_skips_rate_limit_witness:
  "header_api_key request0 = Some ''k1'' \<and>
   anonymous world_anonymous ''k1'' \<and>
   wallets world_anonymous ''k1'' = Some \<lparr>userId = None, balance = 10\<rparr> \<and>
   limiter_untouched world_anonymous (snd (POST_2 demo_lib env0 world_anonymous request0)) \<and>
   status (fst (POST_2 demo_lib env0 world_anonymous request0)) = 200 \<and>
   limiter_untouched world_anonymous (snd (POST_1 demo_lib env0 world_anonymous request0)) \<and>
   status (fst (POST_1 demo_lib env0 world_anonymous request0)) = 200 \<and>
   fst (validateRequest env0 world_anonymous ''k1'' ''gpt-4o'') \<noteq> Inl (Error ''Rate limit exceeded'')"
proof -
  have h1: "header_api_key request0 = Some ''k1''" by (simp add: request0_def)
  have h2: "anonymous world_anonymous ''k1''" by code_simp
  have w: "wallets world_anonymous ''k1'' = Some \<lparr>userId = None, balance = 10\<rparr>" by code_simp
  have s2: "status (fst (POST_2 demo_lib env0 world_anonymous request0)) = 200" by code_simp
  have s1: "status (fst (POST_1 demo_lib env0 world_anonymous request0)) = 200" by code_simp
  from wallet_without_userId_skips_rate_limit[OF h1 h2, of demo_lib env0 "''gpt-4o''"] h1 h2 w s1 s2
  show ?thesis by blast
qed

section \<open>The fingerprint: claim C9\<close>

lemma span_unique:
  assumes "set x \<subseteq> P" and "set y \<subseteq> P"
    and "r1 = [] \<or> hd r1 \<notin> P" and "r2 = [] \<or> hd r2 \<notin> P"
    and "x @ r1 = y @ r2"
  shows "x = y \<and> r1 = r2"
proof -
  have t: "takeWhile (\<lambda>c. c \<in> P) (z @ r) = z" if "set z \<subseteq> P" and "r = [] \<or> hd r \<notin> P" for z r
  proof -
    have "takeWhile (\<lambda>c. c \<in> P) r = []" using that(2) by (cases r) auto
    moreover have "takeWhile (\<lambda>c. c \<in> P) (z @ r) = z @ takeWhile (\<lambda>c. c \<in> P) r"
      using that(1) by (intro takeWhile_append2) auto
    ultimately show ?thesis by simp
  qed
  from t[OF assms(1,3)] t[OF assms(2,4)] assms(5) have "x = y" by simp
  with assms(5) show ?thesis by simp
qed

lemma hex_value_digit: "k < 16 \<Longrightarrow> hex_value (hex_digit k) = k"
proof -
  have "\<forall>k\<in>set [0..<16]. hex_value (hex_digit k) = k" by code_simp
  then show "k < 16 \<Longrightarrow> hex_value (hex_digit k) = k" by simp
qed

lemma unescape_escape: "unescape_char (escape_char c @ x) = Some (c, x)"
proof (cases "c = CHR 0x08 \<or> c = CHR 0x09 \<or> c = CHR 0x0A \<or> c = CHR 0x0C \<or> c = CHR 0x0D \<or>
              c = dquote \<or> c = backslash")
  case True
  then show ?thesis
    by (auto simp: escape_char_def unescape_char_def dquote_def backslash_def)
next
  case False
  show ?thesis
  proof (cases "(of_char c :: nat) < 32")
    case True
    let ?n = "of_char c :: nat"
    have d: "?n div 16 < 16" "?n mod 16 < 16" using True by simp_all
    have "char_of (16 * (?n div 16) + ?n mod 16) = c" by simp
    with False True show ?thesis
      by (simp add: escape_char_def unescape_char_def backslash_def hex_value_digit[OF d(1)]
            hex_value_digit[OF d(2)])
  next
    case plain: False
    with False show ?thesis
      by (simp add: escape_char_def unescape_char_def)
  qed
qed

lemma escape_char_unique:
  "escape_char c @ x = escape_char d @ y \<Longrightarrow> c = d \<and> x = y"
proof -
  assume "escape_char c @ x = escape_char d @ y"
  then have "unescape_char (escape_char c @ x) = unescape_char (escape_char d @ y)" by simp
  then show ?thesis by (simp add: unescape_escape)
qed

lemma escape_char_head: "\<exists>a as. escape_char c = a # as \<and> a \<noteq> dquote"
  by (simp add: escape_char_def dquote_def backslash_def)

lemma escaped_unique:
  "concat (map escape_char s) @ dquote # r1 = concat (map escape_char t) @ dquote # r2 \<Longrightarrow>
   s = t \<and> r1 = r2"
proof (induction s arbitrary: t)
  case Nil
  show ?case
  proof (cases t)
    case Nil
    with Nil.prems show ?thesis by simp
  next
    case (Cons d t')
    obtain a as where "escape_char d = a # as" "a \<noteq> dquote"
      using escape_char_head by blast
    with Nil.prems Cons show ?thesis by simp
  qed
next
  case (Cons c s')
  show ?case
  proof (cases t)
    case Nil
    obtain a as where "escape_char c = a # as" "a \<noteq> dquote"
      using escape_char_head by blast
    with Cons.prems Nil show ?thesis by simp
  next
    case t: (Cons d t')
    from Cons.prems t
    have "escape_char c @ (concat (map escape_char s') @ dquote # r1) =
          escape_char d @ (concat (map escape_char t') @ dquote # r2)"
      by simp
    from escape_char_unique[OF this]
    have "c = d" and "concat (map escape_char s') @ dquote # r1 =
                      concat (map escape_char t') @ dquote # r2"
      by simp_all
    with Cons.IH[of t'] t show ?thesis by simp
  qed
qed

lemma quote_string_unique:
  "quote_string s @ r1 = quote_string t @ r2 \<Longrightarrow> s = t \<and> r1 = r2"
  using escaped_unique[of s r1 t r2] by (simp add: quote_string_def)

lemma join_comma_Cons:
  "join_comma (x # xs) = x @ (if xs = [] then [] else CHR '','' # join_comma xs)"
  by (cases xs) simp_all

lemma join_comma_unique:
  assumes items: "\<And>x y r1 r2. x \<in> set xs \<Longrightarrow> y \<in> set ys \<Longrightarrow>
                    r1 = [] \<or> hd r1 \<notin> set number_chars \<Longrightarrow>
                    r2 = [] \<or> hd r2 \<notin> set number_chars \<Longrightarrow>
                    g x @ r1 = g y @ r2 \<Longrightarrow> x = y \<and> r1 = r2"
    and heads: "\<And>x. x \<in> set xs \<union> set ys \<Longrightarrow> \<exists>a as. g x = a # as \<and> a \<noteq> c"
    and c: "c \<notin> set number_chars" "c \<noteq> CHR '',''"
    and eq: "join_comma (map g xs) @ c # r1 = join_comma (map g ys) @ c # r2"
  shows "xs = ys \<and> r1 = r2"
  using items heads eq
proof (induction xs arbitrary: ys)
  case Nil
  show ?case
  proof (cases ys)
    case Nil
    with Nil.prems(3) show ?thesis by simp
  next
    case (Cons y ys')
    obtain a as where "g y = a # as" "a \<noteq> c" using Nil.prems(2)[of y] Cons by auto
    with Nil.prems(3) Cons show ?thesis by (simp add: join_comma_Cons)
  qed
next
  case (Cons x xs')
  show ?case
  proof (cases ys)
    case Nil
    obtain a as where "g x = a # as" "a \<noteq> c" using Cons.prems(2)[of x] by auto
    with Cons.prems(3) Nil show ?thesis by (simp add: join_comma_Cons)
  next
    case ys: (Cons y ys')
    let ?R1 = "(if xs' = [] then [] else CHR '','' # join_comma (map g xs')) @ c # r1"
    let ?R2 = "(if ys' = [] then [] else CHR '','' # join_comma (map g ys')) @ c # r2"
    have comma: "CHR '','' \<notin> set number_chars" by (simp add: number_chars_def)
    have e: "g x @ ?R1 = g y @ ?R2"
      using Cons.prems(3) ys by (simp add: join_comma_Cons)
    have d1: "?R1 = [] \<or> hd ?R1 \<notin> set number_chars" using c(1) comma by simp
    have d2: "?R2 = [] \<or> hd ?R2 \<notin> set number_chars" using c(1) comma by simp
    from Cons.prems(1)[OF _ _ d1 d2 e] ys have xy: "x = y" and r: "?R1 = ?R2" by simp_all
    show ?thesis
    proof (cases "xs' = []")
      case True
      with r c(2) have "ys' = []" "r1 = r2" by (auto split: if_splits)
      with True xy ys show ?thesis by simp
    next
      case False
      with r c(2) have ne: "ys' \<noteq> []" by (auto split: if_splits)
      with r False have
        e': "join_comma (map g xs') @ c # r1 = join_comma (map g ys') @ c # r2" by simp
      have i': "\<And>x y r1 r2. x \<in> set xs' \<Longrightarrow> y \<in> set ys' \<Longrightarrow>
                    r1 = [] \<or> hd r1 \<notin> set number_chars \<Longrightarrow>
                    r2 = [] \<or> hd r2 \<notin> set number_chars \<Longrightarrow>
                    g x @ r1 = g y @ r2 \<Longrightarrow> x = y \<and> r1 = r2"
        by (rule Cons.prems(1)) (simp_all add: ys)
      have h': "\<And>x. x \<in> set xs' \<union> set ys' \<Longrightarrow> \<exists>a as. g x = a # as \<and> a \<noteq> c"
        using Cons.prems(2) ys by simp
      have "xs' = ys' \<and> r1 = r2" by (rule Cons.IH[of ys', OF i' h' e'])
      with xy ys show ?thesis by simp
    qed
  qed
qed

lemma number_texts_set:
  "number_texts f qs \<Longrightarrow> q \<in> set qs \<Longrightarrow> f q \<noteq> [] \<and> set (f q) \<subseteq> set number_chars"
  by (auto simp: number_texts_def list_all_iff)

lemma number_texts_inj:
  "number_texts f qs \<Longrightarrow> a \<in> set qs \<Longrightarrow> b \<in> set qs \<Longrightarrow> f a = f b \<Longrightarrow> a = b"
  by (auto simp: number_texts_def list_all_iff)

lemma stringify_head:
  assumes "number_texts f qs" and "finite_numbers qs j"
  shows "\<exists>c cs. stringify f j = c # cs \<and>
           (case j of
              JNull \<Rightarrow> c = CHR ''n''
            | JBool b \<Rightarrow> c = CHR ''t'' \<or> c = CHR ''f''
            | JNum n \<Rightarrow> c \<in> set number_chars
            | JStr s \<Rightarrow> c = dquote
            | JArr xs \<Rightarrow> c = CHR ''[''
            | JObj kvs \<Rightarrow> c = CHR ''{'')"
proof (cases j)
  case (JNum n)
  with assms(2) obtain q where q: "n = Finite q" "q \<in> set qs"
    by (cases n) simp_all
  from number_texts_set[OF assms(1) q(2)] obtain c cs where "f q = c # cs" "c \<in> set number_chars"
    by (cases "f q") auto
  with JNum q show ?thesis by simp
qed (simp_all add: quote_string_def)

lemma stringify_head_open:
  assumes "number_texts f qs" and "finite_numbers qs j"
  shows "\<exists>a as. stringify f j = a # as \<and> a \<noteq> CHR '']''"
proof -
  from stringify_head[OF assms] obtain c cs where
    c: "stringify f j = c # cs"
       "(case j of
              JNull \<Rightarrow> c = CHR ''n''
            | JBool b \<Rightarrow> c = CHR ''t'' \<or> c = CHR ''f''
            | JNum n \<Rightarrow> c \<in> set number_chars
            | JStr s \<Rightarrow> c = dquote
            | JArr xs \<Rightarrow> c = CHR ''[''
            | JObj kvs \<Rightarrow> c = CHR ''{'')"
    by blast
  from c(2) have "c \<noteq> CHR '']''"
    by (cases j) (auto simp: number_chars_def dquote_def)
  with c(1) show ?thesis by blast
qed

lemma same_kind:
  assumes nt: "number_texts f qs"
    and f1: "finite_numbers qs j1" and f2: "finite_numbers qs j2"
    and eq: "stringify f j1 @ r1 = stringify f j2 @ r2"
  shows "(j1 = JNull \<and> j2 = JNull) \<or>
         (\<exists>a b. j1 = JBool a \<and> j2 = JBool b) \<or>
         (\<exists>a b. j1 = JNum (Finite a) \<and> j2 = JNum (Finite b) \<and> a \<in> set qs \<and> b \<in> set qs) \<or>
         (\<exists>a b. j1 = JStr a \<and> j2 = JStr b) \<or>
         (\<exists>a b. j1 = JArr a \<and> j2 = JArr b) \<or>
         (\<exists>a b. j1 = JObj a \<and> j2 = JObj b)"
proof -
  from stringify_head[OF nt f1] obtain c1 cs1 where
    c1: "stringify f j1 = c1 # cs1"
       "(case j1 of
              JNull \<Rightarrow> c1 = CHR ''n''
            | JBool b \<Rightarrow> c1 = CHR ''t'' \<or> c1 = CHR ''f''
            | JNum n \<Rightarrow> c1 \<in> set number_chars
            | JStr s \<Rightarrow> c1 = dquote
            | JArr xs \<Rightarrow> c1 = CHR ''[''
            | JObj kvs \<Rightarrow> c1 = CHR ''{'')"
    by blast
  from stringify_head[OF nt f2] obtain c2 cs2 where
    c2: "stringify f j2 = c2 # cs2"
       "(case j2 of
              JNull \<Rightarrow> c2 = CHR ''n''
            | JBool b \<Rightarrow> c2 = CHR ''t'' \<or> c2 = CHR ''f''
            | JNum n \<Rightarrow> c2 \<in> set number_chars
            | JStr s \<Rightarrow> c2 = dquote
            | JArr xs \<Rightarrow> c2 = CHR ''[''
            | JObj kvs \<Rightarrow> c2 = CHR ''{'')"
    by blast
  from eq c1(1) c2(1) have e: "c1 = c2" by simp
  from f1 have n1: "\<And>n. j1 = JNum n \<Longrightarrow> \<exists>a. n = Finite a \<and> a \<in> set qs"
    by (auto split: number.splits)
  from f2 have n2: "\<And>n. j2 = JNum n \<Longrightarrow> \<exists>a. n = Finite a \<and> a \<in> set qs"
    by (auto split: number.splits)
  from c1(2) c2(2) e n1 n2 show ?thesis
    by (cases j1; cases j2) (auto simp: number_chars_def dquote_def)
qed

lemma stringify_unique:
  assumes nt: "number_texts f qs"
  shows "finite_numbers qs j1 \<Longrightarrow> finite_numbers qs j2 \<Longrightarrow>
         r1 = [] \<or> hd r1 \<notin> set number_chars \<Longrightarrow> r2 = [] \<or> hd r2 \<notin> set number_chars \<Longrightarrow>
         stringify f j1 @ r1 = stringify f j2 @ r2 \<Longrightarrow> j1 = j2 \<and> r1 = r2"
proof (induction j1 arbitrary: j2 r1 r2)
  case JNull
  from same_kind[OF nt JNull.prems(1,2,5)] have "j2 = JNull" by simp
  with JNull.prems(5) show ?case by simp
next
  case (JBool a)
  from same_kind[OF nt JBool.prems(1,2,5)] obtain b where "j2 = JBool b" by auto
  with JBool.prems(5) show ?case by (cases a; cases b) simp_all
next
  case (JNum n)
  from same_kind[OF nt JNum.prems(1,2,5)] obtain a b where
    ab: "n = Finite a" "j2 = JNum (Finite b)" "a \<in> set qs" "b \<in> set qs"
    by auto
  from JNum.prems(5) ab have e: "f a @ r1 = f b @ r2" by simp
  from span_unique[OF _ _ JNum.prems(3,4) e] number_texts_set[OF nt ab(3)]
    number_texts_set[OF nt ab(4)]
  have "f a = f b" "r1 = r2" by simp_all
  with number_texts_inj[OF nt ab(3,4)] ab show ?case by simp
next
  case (JStr s)
  from same_kind[OF nt JStr.prems(1,2,5)] obtain t where t: "j2 = JStr t" by auto
  with JStr.prems(5) quote_string_unique[of s r1 t r2] show ?case by simp
next
  case (JArr xs)
  from same_kind[OF nt JArr.prems(1,2,5)] obtain ys where ys: "j2 = JArr ys" by auto
  have fx: "\<And>x. x \<in> set xs \<Longrightarrow> finite_numbers qs x"
    using JArr.prems(1) by (simp add: list_all_iff)
  have fy: "\<And>y. y \<in> set ys \<Longrightarrow> finite_numbers qs y"
    using JArr.prems(2) ys by (simp add: list_all_iff)
  have items: "\<And>x y r1 r2. x \<in> set xs \<Longrightarrow> y \<in> set ys \<Longrightarrow>
                    r1 = [] \<or> hd r1 \<notin> set number_chars \<Longrightarrow>
                    r2 = [] \<or> hd r2 \<notin> set number_chars \<Longrightarrow>
                    stringify f x @ r1 = stringify f y @ r2 \<Longrightarrow> x = y \<and> r1 = r2"
    using JArr.IH fx fy by blast
  have heads: "\<And>x. x \<in> set xs \<union> set ys \<Longrightarrow> \<exists>a as. stringify f x = a # as \<and> a \<noteq> CHR '']''"
    using stringify_head_open[OF nt] fx fy by blast
  have c: "CHR '']'' \<notin> set number_chars" "CHR '']'' \<noteq> CHR '',''"
    by (simp_all add: number_chars_def)
  from JArr.prems(5) ys
  have eq: "join_comma (map (stringify f) xs) @ CHR '']'' # r1 =
            join_comma (map (stringify f) ys) @ CHR '']'' # r2"
    by simp
  have "xs = ys \<and> r1 = r2"
    by (rule join_comma_unique[where g = "stringify f" and c = "CHR '']''"])
       (fact items heads c eq)+
  with ys show ?case by simp
next
  case (JObj kvs)
  from same_kind[OF nt JObj.prems(1,2,5)] obtain kvs2 where k2: "j2 = JObj kvs2" by auto
  let ?g = "\<lambda>kv. quote_string (fst kv) @ '':'' @ stringify f (snd kv)"
  have fx: "\<And>kv. kv \<in> set kvs \<Longrightarrow> finite_numbers qs (snd kv)"
    using JObj.prems(1) by (simp add: list_all_iff)
  have fy: "\<And>kv. kv \<in> set kvs2 \<Longrightarrow> finite_numbers qs (snd kv)"
    using JObj.prems(2) k2 by (simp add: list_all_iff)
  have items: "x = y \<and> r1 = r2"
    if "x \<in> set kvs" "y \<in> set kvs2"
       "r1 = [] \<or> hd r1 \<notin> set number_chars" "r2 = [] \<or> hd r2 \<notin> set number_chars"
       "?g x @ r1 = ?g y @ r2" for x y r1 r2
  proof -
    from that(5) have
      "quote_string (fst x) @ (CHR '':'' # stringify f (snd x) @ r1) =
       quote_string (fst y) @ (CHR '':'' # stringify f (snd y) @ r2)"
      by simp
    from quote_string_unique[OF this]
    have k: "fst x = fst y" and e: "stringify f (snd x) @ r1 = stringify f (snd y) @ r2"
      by simp_all
    have "snd x \<in> Basic_BNFs.snds x" by (rule snds.intros)
    from JObj.IH[OF that(1) this fx[OF that(1)] fy[OF that(2)] that(3,4) e] k
    show ?thesis by (simp add: prod_eq_iff)
  qed
  have heads: "\<And>x. x \<in> set kvs \<union> set kvs2 \<Longrightarrow> \<exists>a as. ?g x = a # as \<and> a \<noteq> CHR ''}''"
    by (simp add: quote_string_def dquote_def)
  have c: "CHR ''}'' \<notin> set number_chars" "CHR ''}'' \<noteq> CHR '',''"
    by (simp_all add: number_chars_def)
  from JObj.prems(5) k2
  have eq: "join_comma (map ?g kvs) @ CHR ''}'' # r1 = join_comma (map ?g kvs2) @ CHR ''}'' # r2"
    by simp
  have "kvs = kvs2 \<and> r1 = r2"
    by (rule join_comma_unique[where g = ?g and c = "CHR ''}''"])
       (fact items heads c eq)+
  with k2 show ?case by simp
qed

lemma cache_object_inj:
  "cache_object m1 mo1 t1 x1 = cache_object m2 mo2 t2 x2 \<longleftrightarrow>
     m1 = m2 \<and> mo1 = mo2 \<and> t1 = t2 \<and> x1 = x2"
  by (cases t1; cases t2; cases x1; cases x2) (auto simp: cache_object_def)

lemma digested_text_unique:
  assumes "number_texts (Number_toString L) qs"
    and "finite_numbers qs (cache_object m1 mo1 t1 x1)"
    and "finite_numbers qs (cache_object m2 mo2 t2 x2)"
  shows "JSON_stringify L (cache_object m1 mo1 t1 x1) = JSON_stringify L (cache_object m2 mo2 t2 x2)
         \<longleftrightarrow> m1 = m2 \<and> mo1 = mo2 \<and> t1 = t2 \<and> x1 = x2"
proof
  assume "JSON_stringify L (cache_object m1 mo1 t1 x1) = JSON_stringify L (cache_object m2 mo2 t2 x2)"
  then have "stringify (Number_toString L) (cache_object m1 mo1 t1 x1) @ [] =
             stringify (Number_toString L) (cache_object m2 mo2 t2 x2) @ []"
    by (simp add: JSON_stringify_def)
  from stringify_unique[OF assms(1,2,3) _ _ this]
  show "m1 = m2 \<and> mo1 = mo2 \<and> t1 = t2 \<and> x1 = x2"
    by (simp add: cache_object_inj)
next
  assume "m1 = m2 \<and> mo1 = mo2 \<and> t1 = t2 \<and> x1 = x2"
  then show "JSON_stringify L (cache_object m1 mo1 t1 x1) =
             JSON_stringify L (cache_object m2 mo2 t2 x2)"
    by simp
qed

lemma finite_fixed_length: "finite {s :: string. length s = n}"
  using finite_lists_length_eq[of "UNIV :: char set" n] by simp

lemma digest_collides:
  assumes "\<forall>s. length (md5_hex L s) = 32"
  shows "\<exists>mo1 mo2. mo1 \<noteq> mo2 \<and>
           generateCacheKey L ms mo1 t x = generateCacheKey L ms mo2 t x"
proof (rule ccontr)
  assume "\<not> ?thesis"
  then have "inj (\<lambda>mo. generateCacheKey L ms mo t x)"
    by (auto simp: inj_on_def)
  moreover have "range (\<lambda>mo. generateCacheKey L ms mo t x) \<subseteq> {s. length s = 32}"
    using assms by (auto simp: generateCacheKey_def Let_def)
  then have "finite (range (\<lambda>mo. generateCacheKey L ms mo t x))"
    using finite_fixed_length finite_subset by blast
  ultimately have "finite (UNIV :: string set)"
    using finite_imageD by blast
  then show False
    using infinite_UNIV_listI by blast
qed

text \<open>
  Claim C9, as the code has it. Take two requests in which every number (in the
  messages, the temperature, \<^verbatim>\<open>max_tokens\<close>) is finite, the numbers having non-empty,
  pairwise different texts made of digits, signs, the point and \<^verbatim>\<open>e\<close>; and let MD5 not
  give the same digest to the two texts \<^verbatim>\<open>JSON.stringify\<close> makes of them when these texts
  are different. Then the two fingerprints are equal exactly when the two requests have
  the same messages, the same model, the same temperature and the same \<^verbatim>\<open>max_tokens\<close>,
  an absent field being different from every number.
\<close>

theorem generateCacheKey_fingerprint:
  assumes "number_texts (Number_toString L) qs"
    and "finite_numbers qs (cache_object m1 mo1 t1 x1)"
    and "finite_numbers qs (cache_object m2 mo2 t2 x2)"
    and "no_collision L (JSON_stringify L (cache_object m1 mo1 t1 x1))
           (JSON_stringify L (cache_object m2 mo2 t2 x2))"
  shows "generateCacheKey L m1 mo1 t1 x1 = generateCacheKey L m2 mo2 t2 x2 \<longleftrightarrow>
           m1 = m2 \<and> mo1 = mo2 \<and> t1 = t2 \<and> x1 = x2"
proof -
  have "generateCacheKey L m1 mo1 t1 x1 = generateCacheKey L m2 mo2 t2 x2 \<longleftrightarrow>
        JSON_stringify L (cache_object m1 mo1 t1 x1) = JSON_stringify L (cache_object m2 mo2 t2 x2)"
    using assms(4) by (auto simp: generateCacheKey_def no_collision_def Let_def)
  with digested_text_unique[OF assms(1,2,3)] show ?thesis by simp
qed

theorem generateCacheKey_fingerprint_witness:
  "number_texts (Number_toString demo_lib) [7 / 10] \<and>
   finite_numbers [7 / 10] (cache_object [JStr ''hello''] ''gpt-4o'' (Some (Finite (7 / 10))) None) \<and>
   finite_numbers [7 / 10] (cache_object [JStr ''hello''] ''gpt-4o'' None None) \<and>
   no_collision demo_lib
     (JSON_stringify demo_lib (cache_object [JStr ''hello''] ''gpt-4o'' (Some (Finite (7 / 10))) None))
     (JSON_stringify demo_lib (cache_object [JStr ''hello''] ''gpt-4o'' None None)) \<and>
   generateCacheKey demo_lib [JStr ''hello''] ''gpt-4o'' (Some (Finite (7 / 10))) None
     \<noteq> generateCacheKey demo_lib [JStr ''hello''] ''gpt-4o'' None None \<and>
   no_collision demo_lib
     (JSON_stringify demo_lib (cache_object [JStr ''hello''] ''gpt-4o'' (Some (Finite (7 / 10))) None))
     (JSON_stringify demo_lib (cache_object [JStr ''hello''] ''gpt-4'' (Some (Finite (7 / 10))) None)) \<and>
   generateCacheKey demo_lib [JStr ''hello''] ''gpt-4o'' (Some (Finite (7 / 10))) None
     \<noteq> generateCacheKey demo_lib [JStr ''hello''] ''gpt-4'' (Some (Finite (7 / 10))) None"
proof -
  have n: "number_texts (Number_toString demo_lib) [7 / 10]" by code_simp
  have f1: "finite_numbers [7 / 10]
              (cache_object [JStr ''hello''] ''gpt-4o'' (Some (Finite (7 / 10))) None)"
    by code_simp
  have f2: "finite_numbers [7 / 10] (cache_object [JStr ''hello''] ''gpt-4o'' None None)"
    by code_simp
  have f3: "finite_numbers [7 / 10]
              (cache_object [JStr ''hello''] ''gpt-4'' (Some (Finite (7 / 10))) None)"
    by code_simp
  have c: "no_collision demo_lib
     (JSON_stringify demo_lib (cache_object [JStr ''hello''] ''gpt-4o'' (Some (Finite (7 / 10))) None))
     (JSON_stringify demo_lib (cache_object [JStr ''hello''] ''gpt-4o'' None None))"
    by code_simp
  have c': "no_collision demo_lib
     (JSON_stringify demo_lib (cache_object [JStr ''hello''] ''gpt-4o'' (Some (Finite (7 / 10))) None))
     (JSON_stringify demo_lib (cache_object [JStr ''hello''] ''gpt-4'' (Some (Finite (7 / 10))) None))"
    by code_simp
  from generateCacheKey_fingerprint[OF n f1 f2 c] generateCacheKey_fingerprint[OF n f1 f3 c']
    n f1 f2 c c'
  show ?thesis by simp
qed

text \<open>
  Two requests that differ in the temperature and have the same fingerprint, whatever
  MD5 does: the bodies \<^verbatim>\<open>{"messages":["hello"],"temperature":1e999}\<close> and
  \<^verbatim>\<open>{"messages":["hello"],"temperature":-1e999}\<close>, whose temperatures \<^verbatim>\<open>request.json()\<close>
  reads as \<^verbatim>\<open>Infinity\<close> and \<^verbatim>\<open>-Infinity\<close>. \<^verbatim>\<open>JSON.stringify\<close> writes both as \<^verbatim>\<open>null\<close>, so one
  text is digested for the two requests.
\<close>

theorem generateCacheKey_collision:
  "Infinity \<noteq> Minus_Infinity \<and>
   JSON_stringify demo_lib (cache_object [JStr ''hello''] ''gpt-4o'' (Some Infinity) None) =
     ''{'' @ quote_string ''messages'' @ '':['' @ quote_string ''hello'' @ ''],''
     @ quote_string ''model'' @ '':'' @ quote_string ''gpt-4o'' @ '',''
     @ quote_string ''temperature'' @ '':null}'' \<and>
   JSON_stringify demo_lib (cache_object [JStr ''hello''] ''gpt-4o'' (Some Minus_Infinity) None) =
     JSON_stringify demo_lib (cache_object [JStr ''hello''] ''gpt-4o'' (Some Infinity) None) \<and>
   (\<forall>L. generateCacheKey L [JStr ''hello''] ''gpt-4o'' (Some Infinity) None =
         generateCacheKey L [JStr ''hello''] ''gpt-4o'' (Some Minus_Infinity) None)"
proof -
  have a: "JSON_stringify demo_lib (cache_object [JStr ''hello''] ''gpt-4o'' (Some Infinity) None) =
     ''{'' @ quote_string ''messages'' @ '':['' @ quote_string ''hello'' @ ''],''
     @ quote_string ''model'' @ '':'' @ quote_string ''gpt-4o'' @ '',''
     @ quote_string ''temperature'' @ '':null}''"
    by code_simp
  have b: "JSON_stringify L (cache_object [JStr ''hello''] ''gpt-4o'' (Some Minus_Infinity) None) =
           JSON_stringify L (cache_object [JStr ''hello''] ''gpt-4o'' (Some Infinity) None)" for L
    by (simp add: JSON_stringify_def cache_object_def)
  from a b show ?thesis by (simp add: generateCacheKey_def)
qed

end
